theory Spec2Isabelle
  imports Complex_Main "HOL-Library.Sublist" "HOL-Library.AList"
begin

section \<open>Shared JavaScript primitives\<close>

text \<open>
  A thrown JavaScript value: an \<open>Error\<close> object with its message, or any other value.
  The catch blocks of the repository read \<open>error.message\<close> of the former and fall back
  to the text \<open>Unknown error\<close> for the latter.
\<close>

datatype js_error = Error string | NonError

definition error_message :: "js_error \<Rightarrow> string" where
  "error_message e = (case e of Error m \<Rightarrow> m | NonError \<Rightarrow> ''Unknown error'')"

text \<open>
  \<open>Array.prototype.slice(start, end)\<close>: a negative index counts from the end of the
  array, both indices are clamped to the array, and an empty range gives the empty array.
\<close>

definition js_slice :: "'a list \<Rightarrow> int \<Rightarrow> int \<Rightarrow> 'a list" where
  "js_slice xs start fin =
     (let len = int (length xs);
          k = (if start < 0 then max (len + start) 0 else min start len);
          final = (if fin < 0 then max (len + fin) 0 else min fin len)
      in take (nat (final - k)) (drop (nat k) xs))"

section \<open>Data model\<close>

text \<open>
  Modelled from the spec: the type \<open>BrandVoiceSource\<close> is imported from
  \<open>@/types/database\<close>, whose declaration of it is not part of the sources; the five tags
  are the ones the data model of the specification lists, and the code uses four of them
  as string literals.
\<close>

datatype BrandVoiceSource = style_guide | example_post | knowledge_base | feedback | other

text \<open>
  A row of the table \<open>brand_voice_embeddings\<close> (interface \<open>BrandVoiceEmbedding\<close> of
  \<open>lib/db/queries/brand-voice.ts\<close>). Numbers are idealised as reals, \<open>created_at\<close> is a
  timestamp, and the JSON metadata is a list of key and value pairs.
\<close>

record BrandVoiceEmbedding =
  row_id :: string
  source :: BrandVoiceSource
  source_file :: "string option"
  row_text :: string
  embedding :: "real list"
  metadata :: "(string \<times> string) list option"
  created_at :: int

text \<open>The element type of the result of \<open>findSimilarBrandVoice\<close>: the row and its score.\<close>

record SimilarBrandVoice =
  item :: BrandVoiceEmbedding
  similarity :: real

section \<open>Cosine similarity\<close>

text \<open>
  The loop shared by both implementations: for \<open>i\<close> from \<open>0\<close> below the length of the
  first vector it accumulates the dot product and the two sums of squares.
\<close>

definition cosine_sums :: "real list \<Rightarrow> real list \<Rightarrow> real \<times> real \<times> real" where
  "cosine_sums embeddingA embeddingB =
     fold (\<lambda>i (dotProduct, magnitudeA, magnitudeB).
             (dotProduct + embeddingA ! i * embeddingB ! i,
              magnitudeA + embeddingA ! i * embeddingA ! i,
              magnitudeB + embeddingB ! i * embeddingB ! i))
          [0..<length embeddingA] (0, 0, 0)"

text \<open>\<open>cosineSimilarity\<close> of \<open>lib/ai/embeddings.ts\<close>: it throws on a length mismatch.\<close>

definition cosineSimilarity :: "real list \<Rightarrow> real list \<Rightarrow> js_error + real" where
  "cosineSimilarity embeddingA embeddingB =
     (if length embeddingA \<noteq> length embeddingB
      then Inl (Error ''Embeddings must have the same dimensions'')
      else (case cosine_sums embeddingA embeddingB of
              (dotProduct, sumA, sumB) \<Rightarrow>
                (let magnitudeA = sqrt sumA; magnitudeB = sqrt sumB
                 in if magnitudeA = 0 \<or> magnitudeB = 0 then Inr 0
                    else Inr (dotProduct / (magnitudeA * magnitudeB)))))"

text \<open>
  The private \<open>cosineSimilarity\<close> of \<open>lib/db/queries/brand-voice.ts\<close>: it returns \<open>0\<close>
  on a length mismatch.
\<close>

definition bv_cosineSimilarity :: "real list \<Rightarrow> real list \<Rightarrow> real" where
  "bv_cosineSimilarity embeddingA embeddingB =
     (if length embeddingA \<noteq> length embeddingB then 0
      else (case cosine_sums embeddingA embeddingB of
              (dotProduct, sumA, sumB) \<Rightarrow>
                (let magnitudeA = sqrt sumA; magnitudeB = sqrt sumB
                 in if magnitudeA = 0 \<or> magnitudeB = 0 then 0
                    else dotProduct / (magnitudeA * magnitudeB))))"

text \<open>The Euclidean norm, as a reference for what zero magnitude means.\<close>

definition magnitude :: "real list \<Rightarrow> real" where
  "magnitude v = sqrt (\<Sum>x\<leftarrow>v. x * x)"

section \<open>Similarity search\<close>

text \<open>
  The table is the list of its rows in the order in which a \<open>SELECT\<close> without
  \<open>ORDER BY\<close> returns them. \<open>sql_select\<close> is the query of \<open>findSimilarBrandVoice\<close>:
  with a source it keeps the rows of that source, without one it returns every row.
\<close>

definition sql_select :: "BrandVoiceEmbedding list \<Rightarrow> BrandVoiceSource option \<Rightarrow> BrandVoiceEmbedding list" where
  "sql_select db src = (case src of Some s \<Rightarrow> filter (\<lambda>row. source row = s) db | None \<Rightarrow> db)"

text \<open>
  \<open>Array.prototype.sort\<close> with the comparator \<open>(a, b) => b.similarity - a.similarity\<close>:
  a stable sort into descending similarity.
\<close>

definition sort_by_similarity :: "SimilarBrandVoice list \<Rightarrow> SimilarBrandVoice list" where
  "sort_by_similarity xs = sort_key (\<lambda>x. - similarity x) xs"

definition findSimilarBrandVoice ::
  "BrandVoiceEmbedding list \<Rightarrow> real list \<Rightarrow> int \<Rightarrow> real \<Rightarrow> BrandVoiceSource option \<Rightarrow> SimilarBrandVoice list" where
  "findSimilarBrandVoice db queryEmbedding limit minSimilarity src =
     (let allEmbeddings = sql_select db src;
          similarities = map (\<lambda>row. \<lparr>item = row,
                                     similarity = bv_cosineSimilarity queryEmbedding (embedding row)\<rparr>)
                             allEmbeddings;
          filtered = js_slice (sort_by_similarity
                                 (filter (\<lambda>x. similarity x \<ge> minSimilarity) similarities)) 0 limit
      in filtered)"

section \<open>Embedding provider\<close>

text \<open>
  The response of the provider's \<open>embeddings.create\<close>: the embeddings of \<open>response.data\<close>
  in the order the provider returned them, and \<open>response.usage.total_tokens\<close>.
\<close>

record embedding_response =
  resp_data :: "real list list"
  resp_total_tokens :: int

text \<open>
  The provider is a parameter: a client takes the model and the list of inputs of one
  request and answers or throws. \<open>getOpenAIClient\<close> itself throws when the API key is
  not set, so what the functions below receive is the outcome of that call.
\<close>

type_synonym embeddings_client = "string \<Rightarrow> string list \<Rightarrow> js_error + embedding_response"

record EmbeddingResult =
  er_embedding :: "real list"
  er_text :: string
  er_model :: string
  er_dimensions :: nat

definition DEFAULT_MODEL :: string where
  "DEFAULT_MODEL = ''text-embedding-3-small''"

text \<open>
  \<open>generateEmbedding\<close>: the client is obtained outside the \<open>try\<close>; whatever is thrown
  inside it, an empty answer included, is thrown again as an \<open>Error\<close> with a prefixed
  message.
\<close>

definition generateEmbedding ::
  "(js_error + embeddings_client) \<Rightarrow> string \<Rightarrow> string \<Rightarrow> js_error + EmbeddingResult" where
  "generateEmbedding getOpenAIClient txt model =
     (case getOpenAIClient of
        Inl e \<Rightarrow> Inl e
      | Inr client \<Rightarrow>
          (case (case client model [txt] of
                   Inl e \<Rightarrow> Inl e
                 | Inr response \<Rightarrow>
                     (case resp_data response of
                        [] \<Rightarrow> Inl (Error ''No embedding returned from OpenAI'')
                      | e0 # _ \<Rightarrow> Inr \<lparr>er_embedding = e0, er_text = txt, er_model = model,
                                      er_dimensions = length e0\<rparr>)) of
             Inl e \<Rightarrow> Inl (Error (''Failed to generate embedding: '' @ error_message e))
           | Inr r \<Rightarrow> Inr r))"

section \<open>Retrieval\<close>

record BrandVoiceContext =
  ctx_text :: string
  ctx_source :: BrandVoiceSource
  ctx_sourceFile :: "string option"
  ctx_similarity :: real
  ctx_metadata :: "(string \<times> string) list option"

text \<open>\<open>RAGOptions\<close>: every field is optional.\<close>

record RAGOptions =
  topK :: "int option"
  minSimilarity :: "real option"
  sources :: "BrandVoiceSource list option"
  includeMetadata :: "bool option"

text \<open>
  \<open>retrieveBrandVoiceContext\<close>: the options are merged over the defaults
  (\<open>topK\<close> 5, \<open>minSimilarity\<close> 0.7, \<open>includeMetadata\<close> true) and the search is called
  with three arguments: the query embedding, \<open>topK\<close> and \<open>minSimilarity\<close>. The fourth
  parameter of \<open>findSimilarBrandVoice\<close> is left undefined; \<open>opts.sources\<close> is not read.
  The store is the table, or the error its query throws; every error is thrown again
  with a prefixed message.
\<close>

definition retrieveBrandVoiceContext ::
  "(js_error + embeddings_client) \<Rightarrow> (js_error + BrandVoiceEmbedding list) \<Rightarrow> string \<Rightarrow> RAGOptions
     \<Rightarrow> js_error + BrandVoiceContext list" where
  "retrieveBrandVoiceContext getOpenAIClient store query options =
     (let opts_topK = (case topK options of Some k \<Rightarrow> k | None \<Rightarrow> 5);
          opts_minSimilarity = (case minSimilarity options of Some m \<Rightarrow> m | None \<Rightarrow> 7 / 10);
          opts_includeMetadata = (case includeMetadata options of Some b \<Rightarrow> b | None \<Rightarrow> True)
      in case (case generateEmbedding getOpenAIClient query DEFAULT_MODEL of
                 Inl e \<Rightarrow> Inl e
               | Inr queryEmbeddingResult \<Rightarrow>
                   (case store of
                      Inl e \<Rightarrow> Inl e
                    | Inr db \<Rightarrow>
                        Inr (map (\<lambda>result.
                                    \<lparr>ctx_text = row_text (item result),
                                     ctx_source = source (item result),
                                     ctx_sourceFile = source_file (item result),
                                     ctx_similarity = similarity result,
                                     ctx_metadata = (if opts_includeMetadata
                                                     then metadata (item result) else None)\<rparr>)
                                 (findSimilarBrandVoice db (er_embedding queryEmbeddingResult)
                                    opts_topK opts_minSimilarity None)))) of
           Inl e \<Rightarrow> Inl (Error (''Failed to retrieve brand voice context: '' @ error_message e))
         | Inr contexts \<Rightarrow> Inr contexts)"

text \<open>
  \<open>getBrandVoiceGuidelines\<close>: the platform is optional, and an empty platform is falsy.
\<close>

definition getBrandVoiceGuidelines ::
  "(js_error + embeddings_client) \<Rightarrow> (js_error + BrandVoiceEmbedding list) \<Rightarrow> string \<Rightarrow> string option
     \<Rightarrow> js_error + BrandVoiceContext list" where
  "getBrandVoiceGuidelines getOpenAIClient store contentType platform =
     (let query = (case platform of
                     Some p \<Rightarrow> (if p \<noteq> []
                                then ''Guidelines for '' @ contentType @ '' on '' @ p @ '' social media''
                                else ''Guidelines for '' @ contentType)
                   | None \<Rightarrow> ''Guidelines for '' @ contentType)
      in retrieveBrandVoiceContext getOpenAIClient store query
           \<lparr>topK = Some 3, minSimilarity = Some (65 / 100), sources = Some [style_guide],
            includeMetadata = None\<rparr>)"

definition getBrandVoiceExamples ::
  "(js_error + embeddings_client) \<Rightarrow> (js_error + BrandVoiceEmbedding list) \<Rightarrow> string \<Rightarrow> string
     \<Rightarrow> js_error + BrandVoiceContext list" where
  "getBrandVoiceExamples getOpenAIClient store topic postType =
     (let query = ''Example '' @ postType @ '' post about '' @ topic
      in retrieveBrandVoiceContext getOpenAIClient store query
           \<lparr>topK = Some 5, minSimilarity = Some (7 / 10), sources = Some [example_post, knowledge_base],
            includeMetadata = None\<rparr>)"

section \<open>Batch embedding\<close>

text \<open>
  An element of \<open>BatchEmbeddingResult.embeddings\<close>. Its text is \<open>batch[index]\<close>, which
  is undefined when the provider answers with more items than the batch has inputs.
\<close>

record BatchItem =
  bi_embedding :: "real list"
  bi_text :: "string option"
  bi_model :: string
  bi_dimensions :: nat

text \<open>
  The state of the loop of \<open>generateEmbeddingsBatch\<close>: the loop variable \<open>i\<close>, the
  results so far, the tokens so far, and the requests sent to the provider so far (the
  inputs of each request, in the order of sending).
\<close>

record batch_state =
  bs_i :: int
  allEmbeddings :: "BatchItem list"
  totalTokens :: int
  requests :: "string list list"

text \<open>\<open>batch[index]\<close>: undefined beyond the end of the array.\<close>

definition js_index :: "'a list \<Rightarrow> nat \<Rightarrow> 'a option" where
  "js_index xs i = (if i < length xs then Some (xs ! i) else None)"

text \<open>
  The loop \<open>for (let i = 0; i < texts.length; i += batchSize)\<close>. The first argument
  bounds the number of iterations: the result is \<open>None\<close> when the loop needs more.
  A request that throws ends the function with that error.
\<close>

fun batch_loop ::
  "nat \<Rightarrow> embeddings_client \<Rightarrow> string \<Rightarrow> string list \<Rightarrow> int \<Rightarrow> batch_state
     \<Rightarrow> (js_error + batch_state) option" where
  "batch_loop 0 client model texts batchSize st =
     (if bs_i st < int (length texts) then None else Some (Inr st))"
| "batch_loop (Suc fuel) client model texts batchSize st =
     (if bs_i st < int (length texts)
      then (let batch = js_slice texts (bs_i st) (bs_i st + batchSize)
            in case client model batch of
                 Inl e \<Rightarrow> Some (Inl e)
               | Inr response \<Rightarrow>
                   batch_loop fuel client model texts batchSize
                     \<lparr>bs_i = bs_i st + batchSize,
                      allEmbeddings = allEmbeddings st @
                        map (\<lambda>(e, index). \<lparr>bi_embedding = e, bi_text = js_index batch index,
                                            bi_model = model, bi_dimensions = length e\<rparr>)
                            (zip (resp_data response) [0..<length (resp_data response)]),
                      totalTokens = totalTokens st + resp_total_tokens response,
                      requests = requests st @ [batch]\<rparr>)
      else Some (Inr st))"

text \<open>
  \<open>generateEmbeddingsBatch\<close>: the final state holds the fields of the
  \<open>BatchEmbeddingResult\<close> (\<open>embeddings\<close>, \<open>totalTokens\<close>) and the requests that were sent.
\<close>

definition generateEmbeddingsBatch ::
  "nat \<Rightarrow> (js_error + embeddings_client) \<Rightarrow> string list \<Rightarrow> string \<Rightarrow> int
     \<Rightarrow> (js_error + batch_state) option" where
  "generateEmbeddingsBatch fuel getOpenAIClient texts model batchSize =
     (case getOpenAIClient of
        Inl e \<Rightarrow> Some (Inl e)
      | Inr client \<Rightarrow>
          batch_loop fuel client model texts batchSize
            \<lparr>bs_i = 0, allEmbeddings = [], totalTokens = 0, requests = []\<rparr>)"

section \<open>Text chunking\<close>

text \<open>
  A JavaScript string is the list of its code units; a \<open>char\<close> stands for a code unit
  below 256. The line feed, the carriage return and the tab:
\<close>

abbreviation LF :: char where "LF \<equiv> CHR 0x0A"
abbreviation CR :: char where "CR \<equiv> CHR 0x0D"
abbreviation TAB :: char where "TAB \<equiv> CHR 0x09"

text \<open>
  The code units below 256 that \<open>String.prototype.trim\<close> removes: tab, line feed,
  vertical tab, form feed, carriage return, space and no-break space.
\<close>

definition is_js_whitespace :: "char \<Rightarrow> bool" where
  "is_js_whitespace c \<longleftrightarrow> c \<in> {CHR 0x09, CHR 0x0A, CHR 0x0B, CHR 0x0C, CHR 0x0D, CHR 0x20, CHR 0xA0}"

definition js_trim :: "string \<Rightarrow> string" where
  "js_trim s = rev (dropWhile is_js_whitespace (rev (dropWhile is_js_whitespace s)))"

text \<open>
  \<open>String.prototype.substring(start, end)\<close>: both indices are clamped to the string,
  and they are swapped when the first is the greater one.
\<close>

definition js_substring :: "string \<Rightarrow> int \<Rightarrow> int \<Rightarrow> string" where
  "js_substring s start fin =
     (let len = int (length s);
          a = min (max start 0) len;
          b = min (max fin 0) len;
          lo = min a b;
          hi = max a b
      in take (nat (hi - lo)) (drop (nat lo) s))"

text \<open>
  \<open>String.prototype.lastIndexOf(searchString, position)\<close>: the greatest index not
  above the clamped position at which the search string occurs, or \<open>-1\<close>.
\<close>

definition js_lastIndexOf :: "string \<Rightarrow> string \<Rightarrow> int \<Rightarrow> int" where
  "js_lastIndexOf s searchString position =
     (let len = int (length s);
          searchLen = int (length searchString);
          start = min (max position 0) (len - searchLen)
      in case find (\<lambda>k. take (length searchString) (drop k s) = searchString)
                   (rev [0..<nat (start + 1)]) of
           None \<Rightarrow> - 1
         | Some k \<Rightarrow> int k)"

text \<open>\<open>.replace(/\r\n/g, '\n')\<close>\<close>

fun replace_crlf :: "string \<Rightarrow> string" where
  "replace_crlf (c # d # cs) =
     (if c = CR \<and> d = LF then LF # replace_crlf cs else c # replace_crlf (d # cs))"
| "replace_crlf cs = cs"

text \<open>
  \<open>.replace(/\n{3,}/g, '\n\n')\<close>: the first argument counts the line feeds of the
  run that is being read; a run of three or more is written as two.
\<close>

fun collapse_newlines :: "nat \<Rightarrow> string \<Rightarrow> string" where
  "collapse_newlines k [] = replicate (min k 2) LF"
| "collapse_newlines k (c # cs) =
     (if c = LF then collapse_newlines (Suc k) cs
      else replicate (min k 2) LF @ c # collapse_newlines 0 cs)"

text \<open>
  \<open>.replace(/[ \t]+/g, ' ')\<close>: the first argument tells whether the previous code
  unit was a space or a tab.
\<close>

fun collapse_spaces :: "bool \<Rightarrow> string \<Rightarrow> string" where
  "collapse_spaces inRun [] = []"
| "collapse_spaces inRun (c # cs) =
     (if c = CHR '' '' \<or> c = TAB
      then (if inRun then collapse_spaces True cs else CHR '' '' # collapse_spaces True cs)
      else c # collapse_spaces False cs)"

definition clean_text :: "string \<Rightarrow> string" where
  "clean_text txt = js_trim (collapse_spaces False (collapse_newlines 0 (replace_crlf txt)))"

text \<open>\<open>TextChunk\<close> and \<open>ChunkingOptions\<close>; every option is optional.\<close>

datatype js_value = JString string | JNumber int | JUndefined

type_synonym js_object = "(string \<times> js_value) list"

record TextChunk =
  chunk_text :: string
  chunk_index :: nat
  startPosition :: int
  endPosition :: int
  chunk_metadata :: "js_object option"

record ChunkingOptions =
  chunkSize :: "int option"
  chunkOverlap :: "int option"
  separators :: "string list option"
  preserveWhitespace :: "bool option"

text \<open>The options after \<open>{ ...DEFAULT_OPTIONS, ...options }\<close>.\<close>

record chunk_opts =
  opt_chunkSize :: int
  opt_chunkOverlap :: int
  opt_separators :: "string list"
  opt_preserveWhitespace :: bool

definition DEFAULT_SEPARATORS :: "string list" where
  "DEFAULT_SEPARATORS = [[LF, LF], [LF], ''. '', ''! '', ''? '', ''; '', '', '', '' '']"

definition merge_chunk_options :: "ChunkingOptions \<Rightarrow> chunk_opts" where
  "merge_chunk_options options =
     \<lparr>opt_chunkSize = (case chunkSize options of Some n \<Rightarrow> n | None \<Rightarrow> 1000),
      opt_chunkOverlap = (case chunkOverlap options of Some n \<Rightarrow> n | None \<Rightarrow> 200),
      opt_separators = (case separators options of Some s \<Rightarrow> s | None \<Rightarrow> DEFAULT_SEPARATORS),
      opt_preserveWhitespace = (case preserveWhitespace options of Some b \<Rightarrow> b | None \<Rightarrow> False)\<rparr>"

text \<open>
  The search for a split point: the separators are tried in order, each in the window
  from \<open>max(startPos, endPos - 200)\<close> to \<open>min(endPos + 100, length)\<close>; the first one that
  occurs there at or before \<open>endPos\<close> gives the position right after its last such
  occurrence.
\<close>

fun find_split :: "string \<Rightarrow> int \<Rightarrow> int \<Rightarrow> string list \<Rightarrow> int option" where
  "find_split cleanText startPos endPos [] = None"
| "find_split cleanText startPos endPos (separator # rest) =
     (let searchStart = max startPos (endPos - 200);
          searchEnd = min (endPos + 100) (int (length cleanText));
          segment = js_substring cleanText searchStart searchEnd;
          relativePos = js_lastIndexOf segment separator (endPos - searchStart)
      in if relativePos \<noteq> - 1
         then Some (searchStart + relativePos + int (length separator))
         else find_split cleanText startPos endPos rest)"

text \<open>The variables of the loop of \<open>chunkText\<close>.\<close>

record chunk_state =
  startPos :: int
  chunks :: "TextChunk list"
  chunkIndex :: nat

text \<open>
  One iteration of the \<open>while\<close> loop. The last test reads
  \<open>chunks[chunks.length - 1]?.startPosition\<close>, which is undefined while no chunk has been
  pushed; a comparison with undefined is false.
\<close>

definition chunk_step :: "chunk_opts \<Rightarrow> string \<Rightarrow> chunk_state \<Rightarrow> chunk_state" where
  "chunk_step opts cleanText st =
     (let len = int (length cleanText);
          endPos0 = min (startPos st + opt_chunkSize opts) len;
          endPos = (if endPos0 < len
                    then (case find_split cleanText (startPos st) endPos0 (opt_separators opts) of
                            Some bestSplitPos \<Rightarrow> bestSplitPos
                          | None \<Rightarrow> endPos0)
                    else endPos0);
          chunkText = js_trim (js_substring cleanText (startPos st) endPos);
          chunks1 = (if chunkText \<noteq> []
                     then chunks st @ [\<lparr>chunk_text = chunkText, chunk_index = chunkIndex st,
                                        startPosition = startPos st, endPosition = endPos,
                                        chunk_metadata = None\<rparr>]
                     else chunks st);
          chunkIndex1 = (if chunkText \<noteq> [] then Suc (chunkIndex st) else chunkIndex st);
          startPos1 = endPos - opt_chunkOverlap opts
      in \<lparr>startPos = (if chunks1 \<noteq> [] \<and> startPos1 \<le> startPosition (last chunks1)
                      then endPos else startPos1),
          chunks = chunks1,
          chunkIndex = chunkIndex1\<rparr>)"

text \<open>
  The loop \<open>while (startPos < cleanText.length)\<close>. The first argument bounds the
  number of iterations: the result is \<open>None\<close> when the loop needs more.
\<close>

fun chunk_loop :: "nat \<Rightarrow> chunk_opts \<Rightarrow> string \<Rightarrow> chunk_state \<Rightarrow> chunk_state option" where
  "chunk_loop 0 opts cleanText st =
     (if startPos st < int (length cleanText) then None else Some st)"
| "chunk_loop (Suc fuel) opts cleanText st =
     (if startPos st < int (length cleanText)
      then chunk_loop fuel opts cleanText (chunk_step opts cleanText st)
      else Some st)"

definition chunkText :: "nat \<Rightarrow> string \<Rightarrow> ChunkingOptions \<Rightarrow> TextChunk list option" where
  "chunkText fuel txt options =
     (let opts = merge_chunk_options options;
          cleanText = (if \<not> opt_preserveWhitespace opts then clean_text txt else txt)
      in if cleanText = [] then Some []
         else map_option chunks
                (chunk_loop fuel opts cleanText \<lparr>startPos = 0, chunks = [], chunkIndex = 0\<rparr>))"

text \<open>Object spread \<open>{ ...a, ...b }\<close>: the keys of \<open>b\<close> override those of \<open>a\<close>.\<close>

definition js_spread :: "js_object \<Rightarrow> js_object \<Rightarrow> js_object" where
  "js_spread a b = fold (\<lambda>(k, v) m. AList.update k v m) b a"

definition chunkTextWithMetadata ::
  "nat \<Rightarrow> string \<Rightarrow> js_object \<Rightarrow> ChunkingOptions \<Rightarrow> TextChunk list option" where
  "chunkTextWithMetadata fuel txt meta options =
     map_option
       (map (\<lambda>chunk. chunk\<lparr>chunk_metadata :=
                 Some (js_spread meta (case chunk_metadata chunk of Some m \<Rightarrow> m | None \<Rightarrow> []))\<rparr>))
       (chunkText fuel txt options)"

definition estimateTokenCount :: "string \<Rightarrow> int" where
  "estimateTokenCount txt = \<lceil>real (length txt) / 4\<rceil>"

section \<open>Document ingestion\<close>

subsection \<open>Data\<close>

text \<open>\<open>PDFContent\<close>: the text, the number of pages and, of the metadata, the title.\<close>

record PDFContent =
  pdf_text :: string
  numPages :: int
  pdf_title :: "string option"

record InsertBrandVoiceEmbedding =
  ins_source :: BrandVoiceSource
  ins_source_file :: "string option"
  ins_text :: string
  ins_embedding :: "real list"
  ins_metadata :: "js_object option"

text \<open>\<open>IngestionOptions\<close>, and \<open>Partial<IngestionOptions>\<close> where the source is optional too.\<close>

record IngestionOptions =
  io_chunkSize :: "int option"
  io_chunkOverlap :: "int option"
  io_source :: BrandVoiceSource
  io_reIngest :: "bool option"

record PartialIngestionOptions =
  po_chunkSize :: "int option"
  po_chunkOverlap :: "int option"
  po_source :: "BrandVoiceSource option"
  po_reIngest :: "bool option"

record IngestionStats =
  st_pages :: int
  st_characters :: int
  st_chunks :: int
  st_embeddings :: int
  st_tokens :: int

record IngestionResult =
  success :: bool
  fileName :: string
  res_source :: BrandVoiceSource
  stats :: IngestionStats
  errors :: "string list"

record AllDocumentsResult =
  all_success :: bool
  results :: "IngestionResult list"
  totalStats :: IngestionStats

definition zero_stats :: IngestionStats where
  "zero_stats = \<lparr>st_pages = 0, st_characters = 0, st_chunks = 0, st_embeddings = 0, st_tokens = 0\<rparr>"

definition source_name :: "BrandVoiceSource \<Rightarrow> string" where
  "source_name s = (case s of style_guide \<Rightarrow> ''style_guide'' | example_post \<Rightarrow> ''example_post''
                    | knowledge_base \<Rightarrow> ''knowledge_base'' | feedback \<Rightarrow> ''feedback'' | other \<Rightarrow> ''other'')"

subsection \<open>The collaborators\<close>

text \<open>
  The file system, the database and the provider are parameters. The state of the world
  outside the program has an arbitrary type \<open>'w\<close>; each call takes the world, answers or
  throws, and returns the world after the call. \<open>fs_access\<close> tells whether \<open>fs.access\<close>
  succeeds, \<open>read_and_parse\<close> is \<open>fs.readFile\<close> followed by \<open>pdfParse\<close>,
  \<open>sql_delete_by_file\<close> is the \<open>DELETE\<close> statement with its \<open>count\<close>, \<open>sql_insert\<close> is one
  \<open>INSERT\<close> statement for a batch of rows, and \<open>openai_client\<close> is \<open>getOpenAIClient\<close>
  together with the behaviour of the provider during the call that follows.
  \<open>path.join\<close> and \<open>path.basename\<close> are pure functions of Node.
\<close>

record 'w ingest_env =
  fs_access :: "string \<Rightarrow> 'w \<Rightarrow> bool \<times> 'w"
  fs_readdir :: "string \<Rightarrow> 'w \<Rightarrow> (js_error + string list) \<times> 'w"
  read_and_parse :: "string \<Rightarrow> 'w \<Rightarrow> (js_error + PDFContent) \<times> 'w"
  sql_delete_by_file :: "string \<Rightarrow> 'w \<Rightarrow> (js_error + int option) \<times> 'w"
  sql_insert :: "InsertBrandVoiceEmbedding list \<Rightarrow> 'w \<Rightarrow> (js_error + unit) \<times> 'w"
  openai_client :: "'w \<Rightarrow> (js_error + embeddings_client) \<times> 'w"
  path_join :: "string \<Rightarrow> string \<Rightarrow> string"
  path_basename :: "string \<Rightarrow> string"

text \<open>
  An asynchronous computation: from a world it returns a value or throws, with the world
  it leaves behind, or it never returns (\<open>None\<close>: a loop inside runs beyond its bound).
\<close>

type_synonym ('w, 'a) action = "'w \<Rightarrow> ((js_error + 'a) \<times> 'w) option"

definition act_return :: "'a \<Rightarrow> ('w, 'a) action" where
  "act_return x w = Some (Inr x, w)"

definition act_throw :: "js_error \<Rightarrow> ('w, 'a) action" where
  "act_throw e w = Some (Inl e, w)"

definition act_bind :: "('w, 'a) action \<Rightarrow> ('a \<Rightarrow> ('w, 'b) action) \<Rightarrow> ('w, 'b) action" where
  "act_bind m f w =
     (case m w of
        None \<Rightarrow> None
      | Some (Inl e, w') \<Rightarrow> Some (Inl e, w')
      | Some (Inr x, w') \<Rightarrow> f x w')"

text \<open>A call of a collaborator, and a pure computation that may not return.\<close>

definition act_call :: "('w \<Rightarrow> (js_error + 'a) \<times> 'w) \<Rightarrow> ('w, 'a) action" where
  "act_call call w = Some (call w)"

definition act_loop :: "'a option \<Rightarrow> ('w, 'a) action" where
  "act_loop r w = (case r of None \<Rightarrow> None | Some x \<Rightarrow> Some (Inr x, w))"

subsection \<open>The PDF reader\<close>

text \<open>\<open>fileExists\<close> and \<open>readPDF\<close>; the latter throws a new \<open>Error\<close> with a prefixed message.\<close>

definition fileExists :: "'w ingest_env \<Rightarrow> string \<Rightarrow> 'w \<Rightarrow> (js_error + bool) \<times> 'w" where
  "fileExists env filePath w = (case fs_access env filePath w of (ok, w') \<Rightarrow> (Inr ok, w'))"

definition readPDF :: "'w ingest_env \<Rightarrow> string \<Rightarrow> 'w \<Rightarrow> (js_error + PDFContent) \<times> 'w" where
  "readPDF env filePath w =
     (case read_and_parse env filePath w of
        (Inl e, w') \<Rightarrow> (Inl (Error (''Failed to read PDF: '' @ error_message e)), w')
      | (Inr content, w') \<Rightarrow> (Inr content, w'))"

text \<open>\<open>toLowerCase\<close> on code units below 256, \<open>includes\<close> and \<open>endsWith\<close>.\<close>

definition js_toLowerCase :: "string \<Rightarrow> string" where
  "js_toLowerCase s =
     map (\<lambda>c. let n = (of_char c :: nat)
               in if (65 \<le> n \<and> n \<le> 90) \<or> (192 \<le> n \<and> n \<le> 222 \<and> n \<noteq> 215)
                  then char_of (n + 32) else c) s"

definition js_includes :: "string \<Rightarrow> string \<Rightarrow> bool" where
  "js_includes s sub = list_ex (\<lambda>k. take (length sub) (drop k s) = sub) [0..<Suc (length s)]"

definition js_endsWith :: "string \<Rightarrow> string \<Rightarrow> bool" where
  "js_endsWith s suf \<longleftrightarrow> length suf \<le> length s \<and> drop (length s - length suf) s = suf"

text \<open>\<open>Map.prototype.set\<close> on a map kept as the list of its entries in insertion order.\<close>

definition map_set :: "string \<Rightarrow> 'v \<Rightarrow> (string \<times> 'v) list \<Rightarrow> (string \<times> 'v) list" where
  "map_set k v m = AList.update k v m"

text \<open>
  \<open>readPDFsFromDirectory\<close>: a file that cannot be read is logged and left out; only a
  failing \<open>readdir\<close> is thrown.
\<close>

fun read_each ::
  "'w ingest_env \<Rightarrow> string \<Rightarrow> string list \<Rightarrow> (string \<times> PDFContent) list \<Rightarrow> 'w
     \<Rightarrow> (string \<times> PDFContent) list \<times> 'w" where
  "read_each env dirPath [] found w = (found, w)"
| "read_each env dirPath (file # rest) found w =
     (let filePath = path_join env dirPath file
      in case readPDF env filePath w of
           (Inl e, w') \<Rightarrow> read_each env dirPath rest found w'
         | (Inr content, w') \<Rightarrow> read_each env dirPath rest (map_set file content found) w')"

definition readPDFsFromDirectory ::
  "'w ingest_env \<Rightarrow> string \<Rightarrow> 'w \<Rightarrow> (js_error + (string \<times> PDFContent) list) \<times> 'w" where
  "readPDFsFromDirectory env dirPath w =
     (case fs_readdir env dirPath w of
        (Inl e, w') \<Rightarrow> (Inl e, w')
      | (Inr files, w') \<Rightarrow>
          (let pdfFiles = filter (\<lambda>file. js_endsWith (js_toLowerCase file) ''.pdf'') files
           in case read_each env dirPath pdfFiles [] w' of
                (found, w'') \<Rightarrow> (Inr found, w'')))"

subsection \<open>Bulk insert\<close>

text \<open>
  \<open>bulkInsertBrandVoiceEmbeddings\<close>: one \<open>INSERT\<close> per batch of 50 rows; an empty
  \<open>source_file\<close> is stored as null.
\<close>

function bulk_insert_loop ::
  "'w ingest_env \<Rightarrow> InsertBrandVoiceEmbedding list \<Rightarrow> nat \<Rightarrow> int \<Rightarrow> ('w, int) action" where
  "bulk_insert_loop env embeddings i totalInserted w =
     (if i < length embeddings
      then (let batch = take 50 (drop i embeddings);
                params = map (\<lambda>item. item\<lparr>ins_source_file :=
                                (case ins_source_file item of
                                   Some f \<Rightarrow> (if f = [] then None else Some f)
                                 | None \<Rightarrow> None)\<rparr>) batch
            in case sql_insert env params w of
                 (Inl e, w') \<Rightarrow> Some (Inl e, w')
               | (Inr u, w') \<Rightarrow>
                   bulk_insert_loop env embeddings (i + 50) (totalInserted + int (length batch)) w')
      else Some (Inr totalInserted, w))"
  by pat_completeness auto
termination
  by (relation "measure (\<lambda>(env, embeddings, i, totalInserted, w). length embeddings - i)") auto

declare bulk_insert_loop.simps [simp del]

definition bulkInsertBrandVoiceEmbeddings ::
  "'w ingest_env \<Rightarrow> InsertBrandVoiceEmbedding list \<Rightarrow> ('w, int) action" where
  "bulkInsertBrandVoiceEmbeddings env embeddings =
     (if embeddings = [] then act_return 0 else bulk_insert_loop env embeddings 0 0)"

subsection \<open>One document\<close>

text \<open>
  The rows to store. \<open>chunks[index].metadata\<close> throws a \<open>TypeError\<close> when the provider has
  returned more embeddings than there are chunks, and \<open>estimateTokenCount(emb.text)\<close>
  throws one when the text of an embedding is undefined; \<open>map\<close> stops at the first throw.
\<close>

definition type_error_reading :: "string \<Rightarrow> js_error" where
  "type_error_reading property =
     Error (''Cannot read properties of undefined (reading '' @ [CHR 0x27] @ property @ [CHR 0x27] @ '')'')"

definition embedding_row ::
  "IngestionOptions \<Rightarrow> string \<Rightarrow> TextChunk list \<Rightarrow> BatchItem \<Rightarrow> nat
     \<Rightarrow> js_error + InsertBrandVoiceEmbedding" where
  "embedding_row options name chunkList emb index =
     (case js_index chunkList index of
        None \<Rightarrow> Inl (type_error_reading ''metadata'')
      | Some chunk \<Rightarrow>
          (case bi_text emb of
             None \<Rightarrow> Inl (type_error_reading ''length'')
           | Some t \<Rightarrow>
               Inr \<lparr>ins_source = io_source options,
                    ins_source_file = Some name,
                    ins_text = t,
                    ins_embedding = bi_embedding emb,
                    ins_metadata = Some
                      (js_spread (case chunk_metadata chunk of Some m \<Rightarrow> m | None \<Rightarrow> [])
                         [(''chunkIndex'', JNumber (int (chunk_index chunk))),
                          (''model'', JString (bi_model emb)),
                          (''dimensions'', JNumber (int (bi_dimensions emb))),
                          (''estimatedTokens'', JNumber (estimateTokenCount t))])\<rparr>))"

fun first_throw :: "(js_error + 'a) list \<Rightarrow> js_error + 'a list" where
  "first_throw [] = Inr []"
| "first_throw (Inl e # rest) = Inl e"
| "first_throw (Inr x # rest) = (case first_throw rest of Inl e \<Rightarrow> Inl e | Inr xs \<Rightarrow> Inr (x # xs))"

text \<open>\<open>options.chunkSize || 1000\<close>: the default replaces an absent size and the size 0.\<close>

definition or_default :: "int option \<Rightarrow> int \<Rightarrow> int" where
  "or_default v dflt = (case v of None \<Rightarrow> dflt | Some n \<Rightarrow> (if n = 0 then dflt else n))"

text \<open>The body of the \<open>try\<close> block of \<open>ingestDocument\<close>.\<close>

definition ingest_try ::
  "nat \<Rightarrow> 'w ingest_env \<Rightarrow> string \<Rightarrow> string \<Rightarrow> IngestionOptions \<Rightarrow> ('w, IngestionResult) action" where
  "ingest_try fuel env filePath name options =
     act_bind (act_call (fileExists env filePath)) (\<lambda>exists.
     if \<not> exists then act_throw (Error (''File not found: '' @ filePath))
     else
     act_bind (if io_reIngest options = Some True
               then act_bind (act_call (sql_delete_by_file env name)) (\<lambda>deleted. act_return ())
               else act_return ()) (\<lambda>u.
     act_bind (act_call (readPDF env filePath)) (\<lambda>pdfContent.
     act_bind (act_loop (chunkTextWithMetadata fuel (pdf_text pdfContent)
                 [(''fileName'', JString name),
                  (''source'', JString (source_name (io_source options))),
                  (''title'', (case pdf_title pdfContent of Some t \<Rightarrow> JString t | None \<Rightarrow> JUndefined)),
                  (''numPages'', JNumber (numPages pdfContent))]
                 \<lparr>chunkSize = Some (or_default (io_chunkSize options) 1000),
                  chunkOverlap = Some (or_default (io_chunkOverlap options) 200),
                  separators = None, preserveWhitespace = None\<rparr>)) (\<lambda>chunks.
     act_bind (\<lambda>w. case openai_client env w of
                      (client, w') \<Rightarrow>
                        (case generateEmbeddingsBatch fuel client (map chunk_text chunks) DEFAULT_MODEL 100 of
                           None \<Rightarrow> None
                         | Some (Inl e) \<Rightarrow> Some (Inl e, w')
                         | Some (Inr embeddingsResult) \<Rightarrow> Some (Inr embeddingsResult, w')))
       (\<lambda>embeddingsResult.
     case first_throw (map (\<lambda>(emb, index). embedding_row options name chunks emb index)
                          (zip (allEmbeddings embeddingsResult)
                               [0..<length (allEmbeddings embeddingsResult)])) of
       Inl e \<Rightarrow> act_throw e
     | Inr embeddingsToStore \<Rightarrow>
     act_bind (bulkInsertBrandVoiceEmbeddings env embeddingsToStore) (\<lambda>stored.
     act_return
       \<lparr>success = True, fileName = name, res_source = io_source options,
        stats = \<lparr>st_pages = numPages pdfContent,
                 st_characters = int (length (pdf_text pdfContent)),
                 st_chunks = int (length chunks),
                 st_embeddings = stored,
                 st_tokens = totalTokens embeddingsResult\<rparr>,
        errors = []\<rparr>))))))"

text \<open>
  \<open>ingestDocument\<close>: whatever the \<open>try\<close> block throws is caught; its message becomes the
  only entry of \<open>errors\<close>, and the statistics of the result are zero.
\<close>

definition ingestDocument ::
  "nat \<Rightarrow> 'w ingest_env \<Rightarrow> string \<Rightarrow> IngestionOptions \<Rightarrow> 'w \<Rightarrow> (IngestionResult \<times> 'w) option" where
  "ingestDocument fuel env filePath options w =
     (let name = path_basename env filePath
      in case ingest_try fuel env filePath name options w of
           None \<Rightarrow> None
         | Some (Inr result, w') \<Rightarrow> Some (result, w')
         | Some (Inl error, w') \<Rightarrow>
             Some (\<lparr>success = False, fileName = name, res_source = io_source options,
                    stats = \<lparr>st_pages = 0, st_characters = 0, st_chunks = 0, st_embeddings = 0,
                             st_tokens = 0\<rparr>,
                    errors = [error_message error]\<rparr>, w'))"

subsection \<open>A directory of documents\<close>

text \<open>The source that \<open>ingestAllDocuments\<close> determines from a file name.\<close>

definition source_from_name :: "string \<Rightarrow> BrandVoiceSource" where
  "source_from_name name =
     (if js_includes (js_toLowerCase name) ''style'' then style_guide
      else if js_includes (js_toLowerCase name) ''knowledge'' then knowledge_base
      else other)"

text \<open>
  The loop over the entries of the map. The options of each call are
  \<open>{ ...options, source }\<close>: the source determined from the name is written last.
\<close>

fun ingest_each ::
  "nat \<Rightarrow> 'w ingest_env \<Rightarrow> string \<Rightarrow> PartialIngestionOptions \<Rightarrow> (string \<times> PDFContent) list \<Rightarrow> 'w
     \<Rightarrow> (IngestionResult list \<times> 'w) option" where
  "ingest_each fuel env documentsDir options [] w = Some ([], w)"
| "ingest_each fuel env documentsDir options ((name, content) # rest) w =
     (let filePath = path_join env documentsDir name;
          src = source_from_name name
      in case ingestDocument fuel env filePath
                \<lparr>io_chunkSize = po_chunkSize options, io_chunkOverlap = po_chunkOverlap options,
                 io_source = src, io_reIngest = po_reIngest options\<rparr> w of
           None \<Rightarrow> None
         | Some (result, w') \<Rightarrow>
             (case ingest_each fuel env documentsDir options rest w' of
                None \<Rightarrow> None
              | Some (others, w'') \<Rightarrow> Some (result # others, w'')))"

definition add_stats :: "IngestionStats \<Rightarrow> IngestionResult \<Rightarrow> IngestionStats" where
  "add_stats acc result =
     \<lparr>st_pages = st_pages acc + st_pages (stats result),
      st_characters = st_characters acc + st_characters (stats result),
      st_chunks = st_chunks acc + st_chunks (stats result),
      st_embeddings = st_embeddings acc + st_embeddings (stats result),
      st_tokens = st_tokens acc + st_tokens (stats result)\<rparr>"

text \<open>
  \<open>ingestAllDocuments\<close>: an error of \<open>readPDFsFromDirectory\<close> is thrown again; otherwise
  the results of the documents are collected, summed, and their successes conjoined.
\<close>

definition ingestAllDocuments ::
  "nat \<Rightarrow> 'w ingest_env \<Rightarrow> string \<Rightarrow> PartialIngestionOptions \<Rightarrow> ('w, AllDocumentsResult) action" where
  "ingestAllDocuments fuel env documentsDir options w =
     (case readPDFsFromDirectory env documentsDir w of
        (Inl e, w1) \<Rightarrow> Some (Inl e, w1)
      | (Inr pdfs, w1) \<Rightarrow>
          (if pdfs = []
           then Some (Inr \<lparr>all_success = True, results = [], totalStats = zero_stats\<rparr>, w1)
           else (case ingest_each fuel env documentsDir options pdfs w1 of
                   None \<Rightarrow> None
                 | Some (rs, w2) \<Rightarrow>
                     Some (Inr \<lparr>all_success = list_all success rs,
                                results = rs,
                                totalStats = fold (\<lambda>result acc. add_stats acc result) rs zero_stats\<rparr>,
                           w2))))"

section \<open>Specification predicates\<close>

text \<open>
  What one iteration of the loop of \<open>chunkText\<close> does to the cursor, for a step width
  \<open>d\<close>: while the window of \<open>chunkSize\<close> characters ends before the end of the text the
  cursor advances by at least \<open>d\<close>; once the window reaches the end of the text the
  cursor moves to the end less the overlap, or to the end when that would not advance.
\<close>

definition step_spec :: "chunk_opts \<Rightarrow> string \<Rightarrow> int \<Rightarrow> bool" where
  "step_spec opts txt d \<longleftrightarrow>
     (\<forall>st. 0 \<le> startPos st \<and> startPos st < int (length txt) \<longrightarrow>
        (startPos st + opt_chunkSize opts < int (length txt)
           \<longrightarrow> startPos st + d \<le> startPos (chunk_step opts txt st))
      \<and> (int (length txt) \<le> startPos st + opt_chunkSize opts
           \<longrightarrow> startPos (chunk_step opts txt st)
                = (if int (length txt) - opt_chunkOverlap opts \<le> startPos st then int (length txt)
                   else int (length txt) - opt_chunkOverlap opts)))"



text \<open>
  The two forms of the result of one document: a success without errors, or a failure
  whose statistics are zero and whose only error is the message of what was thrown.
\<close>

definition isolated :: "IngestionResult \<Rightarrow> bool" where
  "isolated res \<longleftrightarrow>
     (success res \<and> errors res = [])
     \<or> (\<not> success res \<and> stats res = zero_stats \<and> (\<exists>e. errors res = [error_message e]))"

section \<open>Concrete inputs\<close>

text \<open>Two rows with the same embedding; the second is the more recent one.\<close>

definition row_older :: BrandVoiceEmbedding where
  "row_older = \<lparr>row_id = ''a'', source = style_guide, source_file = None, row_text = ''older'',
                 embedding = [1], metadata = None, created_at = 1\<rparr>"

definition row_newer :: BrandVoiceEmbedding where
  "row_newer = \<lparr>row_id = ''b'', source = style_guide, source_file = None, row_text = ''newer'',
                 embedding = [1], metadata = None, created_at = 2\<rparr>"

text \<open>A row that is neither a style guide nor an example nor knowledge.\<close>

definition row_other :: BrandVoiceEmbedding where
  "row_other = \<lparr>row_id = ''c'', source = other, source_file = Some ''notes.pdf'', row_text = ''misc'',
                 embedding = [1], metadata = None, created_at = 3\<rparr>"

text \<open>A provider that embeds every input as the one-dimensional vector \<open>[1]\<close>.\<close>

definition unit_client :: embeddings_client where
  "unit_client model inputs =
     Inr \<lparr>resp_data = map (\<lambda>_. [1]) inputs, resp_total_tokens = int (length inputs)\<rparr>"

text \<open>A provider that embeds every input as the vector of its length.\<close>

definition length_client :: embeddings_client where
  "length_client model inputs =
     Inr \<lparr>resp_data = map (\<lambda>t. [real (length t)]) inputs, resp_total_tokens = int (length inputs)\<rparr>"

text \<open>Chunking options that set the size and the overlap and leave the rest to the defaults.\<close>

definition size_overlap :: "int \<Rightarrow> int \<Rightarrow> ChunkingOptions" where
  "size_overlap sz ov =
     \<lparr>chunkSize = Some sz, chunkOverlap = Some ov, separators = None, preserveWhitespace = None\<rparr>"

text \<open>Two paragraphs of four letters each.\<close>

definition two_paragraphs :: string where
  "two_paragraphs = ''abcd'' @ [LF, LF] @ ''efgh''"

text \<open>
  A directory with three PDF files and a text file. Every file can be read; the provider
  refuses every request that contains the text \<open>boom\<close>, which is the text of
  \<open>broken.pdf\<close>. The world counts the rows that were inserted.
\<close>

definition fussy_client :: embeddings_client where
  "fussy_client model inputs =
     (if ''boom'' \<in> set inputs then Inl (Error ''rate limit'')
      else Inr \<lparr>resp_data = map (\<lambda>_. [1]) inputs, resp_total_tokens = int (length inputs)\<rparr>)"

definition demo_env :: "nat ingest_env" where
  "demo_env =
     \<lparr>fs_access = (\<lambda>p w. (True, w)),
      fs_readdir = (\<lambda>d w. (Inr [''style.pdf'', ''broken.pdf'', ''readme.txt'', ''notes.pdf''], w)),
      read_and_parse = (\<lambda>p w. (Inr \<lparr>pdf_text = (if p = ''docs/broken.pdf'' then ''boom'' else ''Be kind.''),
                                      numPages = 1, pdf_title = None\<rparr>, w)),
      sql_delete_by_file = (\<lambda>f w. (Inr (Some 0), w)),
      sql_insert = (\<lambda>rows w. (Inr (), w + length rows)),
      openai_client = (\<lambda>w. (Inr fussy_client, w)),
      path_join = (\<lambda>a b. a @ ''/'' @ b),
      path_basename = (\<lambda>p. rev (takeWhile (\<lambda>c. c \<noteq> CHR ''/'') (rev p)))\<rparr>"

text \<open>Options of a caller who asks for the source \<open>example_post\<close>.\<close>

definition example_options :: PartialIngestionOptions where
  "example_options = \<lparr>po_chunkSize = None, po_chunkOverlap = None, po_source = Some example_post,
                       po_reIngest = Some True\<rparr>"


text \<open>A word of 150 letters and a word of 60 letters, with a space between them.\<close>

definition long_words :: string where
  "long_words = replicate 150 (CHR ''a'') @ '' '' @ replicate 60 (CHR ''b'')"



section \<open>Cosine similarity: degenerate inputs\<close>

lemma fold_triple_sum:
  "fold (\<lambda>i (d, ma, mb). (d + f i, ma + g i, mb + h i)) [0..<n] (0::real, 0::real, 0::real)
   = (sum f {0..<n}, sum g {0..<n}, sum h {0..<n})"
  by (induction n) auto

lemma cosine_sums_eq:
  "cosine_sums a b =
     ((\<Sum>i<length a. a ! i * b ! i), (\<Sum>x\<leftarrow>a. x * x), (\<Sum>i<length a. b ! i * b ! i))"
  unfolding cosine_sums_def fold_triple_sum
  by (simp add: sum_list_sum_nth atLeast0LessThan)

lemma cosine_sums_magnitudes:
  assumes "length a = length b"
  shows "sqrt (fst (snd (cosine_sums a b))) = magnitude a"
    and "sqrt (snd (snd (cosine_sums a b))) = magnitude b"
  using assms by (simp_all add: cosine_sums_eq magnitude_def sum_list_sum_nth atLeast0LessThan)

lemma bv_cosineSimilarity_unit: "bv_cosineSimilarity [1] [1] = 1"
  by (simp add: bv_cosineSimilarity_def cosine_sums_def)

text \<open>
  C2, as stated, fails for the exported \<open>cosineSimilarity\<close> of \<open>lib/ai/embeddings.ts\<close>:
  on vectors of different lengths it throws instead of returning \<open>0\<close>.
\<close>

theorem cosineSimilarity_mismatch_raises:
  "length [1::real] \<noteq> length [1::real, 2]
   \<and> cosineSimilarity [1] [1, 2] = Inl (Error ''Embeddings must have the same dimensions'')
   \<and> cosineSimilarity [1] [1, 2] \<noteq> Inr 0"
  by (simp add: cosineSimilarity_def)

text \<open>
  C2 (amended): the store's \<open>cosineSimilarity\<close> of \<open>lib/db/queries/brand-voice.ts\<close> returns
  exactly \<open>0\<close> whenever the two vectors have different lengths or either has zero
  magnitude. The exported \<open>cosineSimilarity\<close> of \<open>lib/ai/embeddings.ts\<close> returns \<open>0\<close>
  when the lengths agree and either vector has zero magnitude, and throws the error
  \<open>Embeddings must have the same dimensions\<close> when the lengths differ.
\<close>

theorem cosineSimilarity_degenerate:
  "(length a \<noteq> length b \<or> magnitude a = 0 \<or> magnitude b = 0 \<longrightarrow> bv_cosineSimilarity a b = 0)
   \<and> (length a = length b \<and> (magnitude a = 0 \<or> magnitude b = 0) \<longrightarrow> cosineSimilarity a b = Inr 0)
   \<and> (length a \<noteq> length b \<longrightarrow>
        cosineSimilarity a b = Inl (Error ''Embeddings must have the same dimensions''))"
proof (cases "length a = length b")
  case False
  then show ?thesis by (simp add: bv_cosineSimilarity_def cosineSimilarity_def)
next
  case True
  obtain d sa sb where s: "cosine_sums a b = (d, sa, sb)" by (cases "cosine_sums a b") auto
  from cosine_sums_magnitudes[OF True] s have "sqrt sa = magnitude a" "sqrt sb = magnitude b"
    by simp_all
  with True s show ?thesis
    by (auto simp add: bv_cosineSimilarity_def cosineSimilarity_def Let_def)
qed

theorem cosineSimilarity_degenerate_witness:
  "magnitude [0, 0] = 0 \<and> bv_cosineSimilarity [0, 0] [3, 4] = 0
   \<and> length [1::real] \<noteq> length [1::real, 2] \<and> bv_cosineSimilarity [1] [1, 2] = 0
   \<and> cosineSimilarity [3, 4] [0, 0] = Inr 0
   \<and> cosineSimilarity [1] [1, 2] = Inl (Error ''Embeddings must have the same dimensions'')"
  using cosineSimilarity_degenerate [of "[0, 0]" "[3, 4]"]
        cosineSimilarity_degenerate [of "[1]" "[1, 2]"]
        cosineSimilarity_degenerate [of "[3, 4]" "[0, 0]"]
  by (simp add: magnitude_def)

section \<open>Similarity search: order, threshold and size of the result\<close>

lemma js_slice_0:
  "js_slice xs 0 fin = take (nat (if fin < 0 then int (length xs) + fin else fin)) xs"
  by (auto simp add: js_slice_def Let_def max_def min_def)

lemma sort_by_similarity_sorted:
  "sorted_wrt (\<lambda>x y. similarity x \<ge> similarity y) (sort_by_similarity xs)"
proof -
  have "sorted (map (\<lambda>x. - similarity x) (sort_by_similarity xs))"
    unfolding sort_by_similarity_def by (rule sorted_sort_key)
  then show ?thesis by (simp add: sorted_map)
qed

lemma sorted_wrt_take_any: "sorted_wrt R xs \<Longrightarrow> sorted_wrt R (take n xs)"
  by (metis append_take_drop_id sorted_wrt_append)

lemma filter_take_prefix: "prefix (filter P (take n xs)) (filter P xs)"
proof -
  have "filter P xs = filter P (take n xs) @ filter P (drop n xs)"
    by (simp flip: filter_append)
  then show ?thesis by (simp add: prefix_def)
qed

lemma sort_by_similarity_stable:
  "filter (\<lambda>x. similarity x = k) (sort_by_similarity xs) = filter (\<lambda>x. similarity x = k) xs"
proof -
  have "filter (\<lambda>x. - similarity x = - k) (sort_key (\<lambda>x. - similarity x) xs)
        = filter (\<lambda>x. - similarity x = - k) xs"
    by (rule sort_key_stable)
  then show ?thesis by (simp add: sort_by_similarity_def)
qed

lemma filter_threshold:
  "filter (\<lambda>x. similarity x = k) (filter (\<lambda>x. similarity x \<ge> m) xs)
   = (if k \<ge> m then filter (\<lambda>x. similarity x = (k::real)) xs else [])"
  by (induction xs) auto

lemma findSimilarBrandVoice_tied_rows:
  "findSimilarBrandVoice [row_older, row_newer] [1] 5 (7 / 10) None
     = [\<lparr>item = row_older, similarity = 1\<rparr>, \<lparr>item = row_newer, similarity = 1\<rparr>]"
  by (simp add: findSimilarBrandVoice_def sql_select_def row_older_def row_newer_def
        bv_cosineSimilarity_unit sort_by_similarity_def js_slice_def)

text \<open>
  C4, as stated, fails twice: two rows with the same similarity are both returned, so the
  result is not strictly descending; and a negative \<open>topK\<close> drops that many results from
  the end of the list instead of bounding its length.
\<close>

theorem findSimilarBrandVoice_not_strict:
  "\<not> sorted_wrt (\<lambda>x y. similarity x > similarity y)
        (findSimilarBrandVoice [row_older, row_newer] [1] 5 (7 / 10) None)
   \<and> \<not> int (length (findSimilarBrandVoice [row_older, row_newer] [1] (- 1) (7 / 10) None)) \<le> - 1"
  by (simp add: findSimilarBrandVoice_def sql_select_def row_older_def row_newer_def
        bv_cosineSimilarity_unit sort_by_similarity_def js_slice_def)

text \<open>
  C4 (amended): for every query vector, table, \<open>topK\<close> and \<open>minSimilarity\<close> the result of
  \<open>findSimilarBrandVoice\<close> is in descending order of similarity, where equal similarities
  may be adjacent; it holds no element whose similarity is below \<open>minSimilarity\<close>; and
  for a \<open>topK\<close> that is not negative its length is at most \<open>topK\<close>.
\<close>

theorem findSimilarBrandVoice_result:
  "sorted_wrt (\<lambda>x y. similarity x \<ge> similarity y) (findSimilarBrandVoice db q limit minSim src)
   \<and> (\<forall>x \<in> set (findSimilarBrandVoice db q limit minSim src). similarity x \<ge> minSim)
   \<and> (0 \<le> limit \<longrightarrow> int (length (findSimilarBrandVoice db q limit minSim src)) \<le> limit)"
proof -
  let ?cand = "filter (\<lambda>x. similarity x \<ge> minSim)
                 (map (\<lambda>row. \<lparr>item = row, similarity = bv_cosineSimilarity q (embedding row)\<rparr>)
                      (sql_select db src))"
  obtain n where res: "findSimilarBrandVoice db q limit minSim src = take n (sort_by_similarity ?cand)"
    and n: "0 \<le> limit \<Longrightarrow> n = nat limit"
    by (simp add: findSimilarBrandVoice_def js_slice_0 Let_def)
  have "sorted_wrt (\<lambda>x y. similarity x \<ge> similarity y) (take n (sort_by_similarity ?cand))"
    by (rule sorted_wrt_take_any) (rule sort_by_similarity_sorted)
  moreover have "\<forall>x \<in> set (take n (sort_by_similarity ?cand)). similarity x \<ge> minSim"
  proof
    fix x assume "x \<in> set (take n (sort_by_similarity ?cand))"
    then have "x \<in> set (sort_by_similarity ?cand)" by (rule in_set_takeD)
    then have "x \<in> set ?cand" by (simp add: sort_by_similarity_def)
    then show "similarity x \<ge> minSim" by simp
  qed
  moreover have "0 \<le> limit \<longrightarrow> int (length (take n (sort_by_similarity ?cand))) \<le> limit"
    using n by auto
  ultimately show ?thesis unfolding res by blast
qed

theorem findSimilarBrandVoice_result_witness:
  "findSimilarBrandVoice [row_older, row_newer, row_other] [1] 2 (7 / 10) None \<noteq> []
   \<and> sorted_wrt (\<lambda>x y. similarity x \<ge> similarity y)
        (findSimilarBrandVoice [row_older, row_newer, row_other] [1] 2 (7 / 10) None)
   \<and> list_all (\<lambda>x. similarity x \<ge> 7 / 10)
        (findSimilarBrandVoice [row_older, row_newer, row_other] [1] 2 (7 / 10) None)
   \<and> (0::int) \<le> 2
   \<and> int (length (findSimilarBrandVoice [row_older, row_newer, row_other] [1] 2 (7 / 10) None)) \<le> 2"
proof -
  have "findSimilarBrandVoice [row_older, row_newer, row_other] [1] 2 (7 / 10) None
          = [\<lparr>item = row_older, similarity = 1\<rparr>, \<lparr>item = row_newer, similarity = 1\<rparr>]"
    by (simp add: findSimilarBrandVoice_def sql_select_def row_older_def row_newer_def row_other_def
          bv_cosineSimilarity_unit sort_by_similarity_def js_slice_def)
  then have "findSimilarBrandVoice [row_older, row_newer, row_other] [1] 2 (7 / 10) None \<noteq> []"
    by simp
  then show ?thesis
    using findSimilarBrandVoice_result [of "[row_older, row_newer, row_other]" "[1]" 2 "7 / 10" None]
    by (simp add: list_all_iff)
qed

section \<open>Similarity search: ties\<close>

text \<open>
  C5, as stated, fails: of two rows with equal similarity the one the store returned
  first comes first, here the older one.
\<close>

theorem findSimilarBrandVoice_tie_keeps_store_order:
  "created_at row_older < created_at row_newer
   \<and> map (\<lambda>x. row_text (item x)) (findSimilarBrandVoice [row_older, row_newer] [1] 5 (7 / 10) None)
       = [''older'', ''newer'']
   \<and> map similarity (findSimilarBrandVoice [row_older, row_newer] [1] 5 (7 / 10) None) = [1, 1]"
  by (simp add: findSimilarBrandVoice_tied_rows) (simp add: row_older_def row_newer_def)

text \<open>
  C5 (amended): \<open>findSimilarBrandVoice\<close> compares similarities only. The results of any
  one similarity value are, in this order, a prefix of the rows of that similarity as
  the store returned them: ties keep the order of the store, and \<open>created_at\<close> is not
  consulted.
\<close>

theorem findSimilarBrandVoice_ties_stable:
  "prefix (filter (\<lambda>x. similarity x = k) (findSimilarBrandVoice db q limit minSim src))
          (filter (\<lambda>x. similarity x = k)
             (map (\<lambda>row. \<lparr>item = row, similarity = bv_cosineSimilarity q (embedding row)\<rparr>)
                  (sql_select db src)))"
proof -
  let ?sc = "map (\<lambda>row. \<lparr>item = row, similarity = bv_cosineSimilarity q (embedding row)\<rparr>)
                  (sql_select db src)"
  let ?cand = "filter (\<lambda>x. similarity x \<ge> minSim) ?sc"
  obtain n where res: "findSimilarBrandVoice db q limit minSim src = take n (sort_by_similarity ?cand)"
    by (simp add: findSimilarBrandVoice_def js_slice_0 Let_def)
  have "prefix (filter (\<lambda>x. similarity x = k) (take n (sort_by_similarity ?cand)))
               (filter (\<lambda>x. similarity x = k) (sort_by_similarity ?cand))"
    by (rule filter_take_prefix)
  then have "prefix (filter (\<lambda>x. similarity x = k) (take n (sort_by_similarity ?cand)))
               (if k \<ge> minSim then filter (\<lambda>x. similarity x = k) ?sc else [])"
    by (simp only: sort_by_similarity_stable filter_threshold)
  then show ?thesis unfolding res
    by (cases "k \<ge> minSim") simp_all
qed

section \<open>Retrieval presets and the source restriction\<close>

text \<open>
  C1: the presets pass \<open>sources\<close> in their options, but \<open>retrieveBrandVoiceContext\<close> never
  hands a source to \<open>findSimilarBrandVoice\<close>. On a table whose only row has the source
  \<open>other\<close>, both the guidelines preset and the examples preset return that row.
\<close>

theorem presets_return_other_sources:
  "getBrandVoiceGuidelines (Inr unit_client) (Inr [row_other]) ''blog'' None
     = Inr [\<lparr>ctx_text = ''misc'', ctx_source = other, ctx_sourceFile = Some ''notes.pdf'',
            ctx_similarity = 1, ctx_metadata = None\<rparr>]
   \<and> getBrandVoiceExamples (Inr unit_client) (Inr [row_other]) ''beta'' ''tip''
     = Inr [\<lparr>ctx_text = ''misc'', ctx_source = other, ctx_sourceFile = Some ''notes.pdf'',
            ctx_similarity = 1, ctx_metadata = None\<rparr>]"
  by (simp add: getBrandVoiceGuidelines_def getBrandVoiceExamples_def retrieveBrandVoiceContext_def
        generateEmbedding_def unit_client_def findSimilarBrandVoice_def sql_select_def row_other_def
        bv_cosineSimilarity_unit sort_by_similarity_def js_slice_def)

section \<open>Batch embedding: number of requests and order\<close>

lemma js_slice_batch:
  assumes "0 \<le> i" "0 < b"
  shows "js_slice xs i (i + b) = take (nat b) (drop (nat i) xs)"
proof (cases "i \<le> int (length xs)")
  case False
  with assms show ?thesis by (simp add: js_slice_def Let_def min_def)
next
  case True
  show ?thesis
  proof (cases "i + b \<le> int (length xs)")
    case le: True
    with assms have "nat (i + b) - nat i = nat b" by linarith
    with assms True le show ?thesis by (simp add: js_slice_def Let_def min_def)
  next
    case gt: False
    with assms True have "length (drop (nat i) xs) \<le> nat b" by simp
    moreover from assms True have "nat (int (length xs) - i) = length xs - nat i" by linarith
    ultimately show ?thesis using assms True gt by (simp add: js_slice_def Let_def min_def)
  qed
qed

lemma batch_items_map:
  "map (\<lambda>(e, index). \<lparr>bi_embedding = e, bi_text = js_index batch index,
                        bi_model = model, bi_dimensions = length e\<rparr>)
       (zip (map emb batch) [0..<length (map emb batch)])
   = map (\<lambda>t. \<lparr>bi_embedding = emb t, bi_text = Some t, bi_model = model,
                bi_dimensions = length (emb t)\<rparr>) batch"
  by (rule nth_equalityI) (simp_all add: js_index_def)

lemma ceiling_step:
  fixes r b :: int
  assumes "0 < b" "0 < r"
  shows "nat \<lceil>real_of_int r / real_of_int b\<rceil> = Suc (nat \<lceil>real_of_int (r - b) / real_of_int b\<rceil>)"
proof -
  have "real_of_int (r - b) / real_of_int b = real_of_int r / real_of_int b - 1"
    using assms by (simp add: diff_divide_distrib)
  then have "\<lceil>real_of_int (r - b) / real_of_int b\<rceil> = \<lceil>real_of_int r / real_of_int b\<rceil> - 1"
    by simp
  moreover have "0 < real_of_int r / real_of_int b"
    using assms by simp
  then have "0 < \<lceil>real_of_int r / real_of_int b\<rceil>"
    by (rule zero_less_ceiling[THEN iffD2])
  ultimately show ?thesis by linarith
qed

lemma ceiling_nonpos:
  fixes r b :: int
  assumes "0 < b" "r \<le> 0"
  shows "nat \<lceil>real_of_int r / real_of_int b\<rceil> = 0"
proof -
  have "real_of_int r / real_of_int b \<le> 0"
    using assms by (simp add: divide_nonpos_pos)
  then have "\<lceil>real_of_int r / real_of_int b\<rceil> \<le> 0" by (simp add: ceiling_le_iff)
  then show ?thesis by simp
qed

lemma batch_loop_good_provider:
  assumes good: "\<And>batch. client model batch = Inr \<lparr>resp_data = map emb batch, resp_total_tokens = tok batch\<rparr>"
    and b: "0 < batchSize"
  shows "0 \<le> bs_i st \<Longrightarrow> nat \<lceil>real_of_int (int (length texts) - bs_i st) / real_of_int batchSize\<rceil> \<le> fuel \<Longrightarrow>
    \<exists>st'. batch_loop fuel client model texts batchSize st = Some (Inr st')
      \<and> allEmbeddings st' = allEmbeddings st @
            map (\<lambda>t. \<lparr>bi_embedding = emb t, bi_text = Some t, bi_model = model,
                        bi_dimensions = length (emb t)\<rparr>) (drop (nat (bs_i st)) texts)
      \<and> concat (requests st') = concat (requests st) @ drop (nat (bs_i st)) texts
      \<and> length (requests st') = length (requests st)
            + nat \<lceil>real_of_int (int (length texts) - bs_i st) / real_of_int batchSize\<rceil>"
proof (induction fuel arbitrary: st)
  case 0
  have "\<not> bs_i st < int (length texts)"
  proof
    assume "bs_i st < int (length texts)"
    then have "0 < int (length texts) - bs_i st" by simp
    from ceiling_step[OF b this] "0.prems"(2) show False by simp
  qed
  then have "int (length texts) - bs_i st \<le> 0" by simp
  from ceiling_nonpos[OF b this] \<open>\<not> bs_i st < int (length texts)\<close> "0.prems"(1)
  show ?case by simp
next
  case (Suc fuel)
  show ?case
  proof (cases "bs_i st < int (length texts)")
    case False
    then have "int (length texts) - bs_i st \<le> 0" by simp
    from ceiling_nonpos[OF b this] False Suc.prems(1)
    show ?thesis by simp
  next
    case True
    let ?batch = "take (nat batchSize) (drop (nat (bs_i st)) texts)"
    let ?mk = "\<lambda>t. \<lparr>bi_embedding = emb t, bi_text = Some t, bi_model = model,
                        bi_dimensions = length (emb t)\<rparr>"
    let ?st1 = "\<lparr>bs_i = bs_i st + batchSize,
                  allEmbeddings = allEmbeddings st @ map ?mk ?batch,
                  totalTokens = totalTokens st + tok ?batch,
                  requests = requests st @ [?batch]\<rparr>"
    have step: "batch_loop (Suc fuel) client model texts batchSize st
                  = batch_loop fuel client model texts batchSize ?st1"
      using True Suc.prems(1) b
      by (simp add: js_slice_batch good batch_items_map Let_def del: length_map)
    from True have pos: "0 < int (length texts) - bs_i st" by simp
    have cnt: "nat \<lceil>real_of_int (int (length texts) - bs_i st) / real_of_int batchSize\<rceil>
               = Suc (nat \<lceil>real_of_int (int (length texts) - bs_i ?st1) / real_of_int batchSize\<rceil>)"
      using ceiling_step[OF b pos] by (simp add: algebra_simps)
    have i1: "0 \<le> bs_i ?st1" using Suc.prems(1) b by simp
    have f1: "nat \<lceil>real_of_int (int (length texts) - bs_i ?st1) / real_of_int batchSize\<rceil> \<le> fuel"
      using Suc.prems(2) cnt by linarith
    from Suc.IH[OF i1 f1] obtain st' where
      r: "batch_loop fuel client model texts batchSize ?st1 = Some (Inr st')"
      and e: "allEmbeddings st' = allEmbeddings ?st1 @ map ?mk (drop (nat (bs_i ?st1)) texts)"
      and c: "concat (requests st') = concat (requests ?st1) @ drop (nat (bs_i ?st1)) texts"
      and l: "length (requests st') = length (requests ?st1)
            + nat \<lceil>real_of_int (int (length texts) - bs_i ?st1) / real_of_int batchSize\<rceil>"
      by blast
    have dr: "drop (nat (bs_i st + batchSize)) texts = drop (nat batchSize) (drop (nat (bs_i st)) texts)"
      using Suc.prems(1) b by (simp add: nat_add_distrib add.commute)
    have split: "?batch @ drop (nat (bs_i st + batchSize)) texts = drop (nat (bs_i st)) texts"
      by (simp only: dr append_take_drop_id)
    have e': "allEmbeddings st' = allEmbeddings st @ map ?mk (drop (nat (bs_i st)) texts)"
    proof -
      have "allEmbeddings st' = allEmbeddings st @ map ?mk (?batch @ drop (nat (bs_i st + batchSize)) texts)"
        using e by simp
      then show ?thesis by (simp only: split)
    qed
    have c': "concat (requests st') = concat (requests st) @ drop (nat (bs_i st)) texts"
    proof -
      have "concat (requests st') = concat (requests st) @ (?batch @ drop (nat (bs_i st + batchSize)) texts)"
        using c by simp
      then show ?thesis by (simp only: split)
    qed
    have l': "length (requests st') = length (requests st)
            + nat \<lceil>real_of_int (int (length texts) - bs_i st) / real_of_int batchSize\<rceil>"
      using l cnt by simp
    from step r e' c' l' show ?thesis by simp
  qed
qed

lemma batch_loop_zero_never_returns:
  assumes "\<And>batch. \<exists>response. client model batch = Inr response"
  shows "bs_i st < int (length texts) \<Longrightarrow> batch_loop fuel client model texts 0 st = None"
proof (induction fuel arbitrary: st)
  case 0
  then show ?case by simp
next
  case (Suc fuel)
  let ?batch = "js_slice texts (bs_i st) (bs_i st + 0)"
  from assms obtain response where r: "client model ?batch = Inr response" by blast
  let ?st1 = "\<lparr>bs_i = bs_i st + 0,
                allEmbeddings = allEmbeddings st @
                  map (\<lambda>(e, index). \<lparr>bi_embedding = e, bi_text = js_index ?batch index,
                                      bi_model = model, bi_dimensions = length e\<rparr>)
                      (zip (resp_data response) [0..<length (resp_data response)]),
                totalTokens = totalTokens st + resp_total_tokens response,
                requests = requests st @ [?batch]\<rparr>"
  have "bs_i ?st1 < int (length texts)" using Suc.prems by simp
  from Suc.IH[OF this] have "batch_loop fuel client model texts 0 ?st1 = None" .
  with Suc.prems r show ?case by (simp add: Let_def)
qed

lemma generateEmbeddingsBatch_zero_never_returns:
  "generateEmbeddingsBatch fuel (Inr length_client) [''a'', ''bb''] ''m'' 0 = None"
proof -
  have "\<And>batch. \<exists>response. length_client ''m'' batch = Inr response"
    by (simp add: length_client_def)
  from batch_loop_zero_never_returns[of length_client "''m''", OF this,
      of "\<lparr>bs_i = 0, allEmbeddings = [], totalTokens = 0, requests = []\<rparr>" "[''a'', ''bb'']" fuel]
  show ?thesis by (simp add: generateEmbeddingsBatch_def)
qed

text \<open>
  C6, as stated, fails: with the batch size 0 the loop variable is never advanced. Against
  a provider that answers every request, the empty one included, the call does not
  return, whatever the number of iterations it is given; so no count of requests and no
  list of embeddings comes back.
\<close>

theorem generateEmbeddingsBatch_zero_batch_size:
  "generateEmbeddingsBatch 20 (Inr length_client) [''a'', ''bb''] ''m'' 0 = None
   \<and> length_client ''m'' [] = Inr \<lparr>resp_data = [], resp_total_tokens = 0\<rparr>"
  by (simp add: generateEmbeddingsBatch_zero_never_returns length_client_def)

text \<open>
  C6 (amended): for every list of texts, every batch size of at least 1 and every provider
  that answers each request with one embedding per input, in the order of the inputs,
  \<open>generateEmbeddingsBatch\<close> returns once it is allowed \<open>\<lceil>n / batchSize\<rceil>\<close> iterations; it
  has then sent exactly \<open>\<lceil>n / batchSize\<rceil>\<close> requests, which partition the texts in order,
  and the result holds one embedding per text in the order of the input. With batch size
  2 and five texts these are three requests and five embeddings.
\<close>

theorem generateEmbeddingsBatch_calls_and_order:
  assumes "\<forall>batch. client model batch
              = Inr \<lparr>resp_data = map emb batch, resp_total_tokens = tok batch\<rparr>"
    and "0 < batchSize"
    and "nat \<lceil>real (length texts) / real_of_int batchSize\<rceil> \<le> fuel"
  shows "\<exists>st. generateEmbeddingsBatch fuel (Inr client) texts model batchSize = Some (Inr st)
           \<and> length (requests st) = nat \<lceil>real (length texts) / real_of_int batchSize\<rceil>
           \<and> concat (requests st) = texts
           \<and> map bi_text (allEmbeddings st) = map Some texts
           \<and> map bi_embedding (allEmbeddings st) = map emb texts"
proof -
  let ?st0 = "\<lparr>bs_i = 0, allEmbeddings = [], totalTokens = 0, requests = []\<rparr>"
  have good: "\<And>batch. client model batch
              = Inr \<lparr>resp_data = map emb batch, resp_total_tokens = tok batch\<rparr>"
    using assms(1) by simp
  have i0: "0 \<le> bs_i ?st0" by simp
  have f0: "nat \<lceil>real_of_int (int (length texts) - bs_i ?st0) / real_of_int batchSize\<rceil> \<le> fuel"
    using assms(3) by simp
  from batch_loop_good_provider[of client model emb tok batchSize ?st0 texts fuel, OF good assms(2) i0 f0]
  obtain st where "batch_loop fuel client model texts batchSize ?st0 = Some (Inr st)"
    and "allEmbeddings st = map (\<lambda>t. \<lparr>bi_embedding = emb t, bi_text = Some t, bi_model = model,
                        bi_dimensions = length (emb t)\<rparr>) texts"
    and "concat (requests st) = texts"
    and "length (requests st) = nat \<lceil>real (length texts) / real_of_int batchSize\<rceil>"
    by auto
  then show ?thesis
    by (simp add: generateEmbeddingsBatch_def comp_def)
qed

theorem generateEmbeddingsBatch_calls_and_order_witness:
  "\<exists>st. generateEmbeddingsBatch 3 (Inr length_client) [''a'', ''bb'', ''ccc'', ''dddd'', ''eeeee''] ''m'' 2
           = Some (Inr st)
         \<and> length (requests st) = 3
         \<and> concat (requests st) = [''a'', ''bb'', ''ccc'', ''dddd'', ''eeeee'']
         \<and> map bi_text (allEmbeddings st) = map Some [''a'', ''bb'', ''ccc'', ''dddd'', ''eeeee'']
         \<and> map bi_embedding (allEmbeddings st) = [[1], [2], [3], [4], [5]]"
proof -
  have good: "\<forall>batch. length_client ''m'' batch
      = Inr \<lparr>resp_data = map (\<lambda>t. [real (length t)]) batch, resp_total_tokens = int (length batch)\<rparr>"
    by (simp add: length_client_def)
  have c: "nat \<lceil>real (length [''a'', ''bb'', ''ccc'', ''dddd'', ''eeeee'']) / real_of_int 2\<rceil> = 3"
    by simp
  show ?thesis
    using generateEmbeddingsBatch_calls_and_order
      [where client = length_client and model = "''m''" and emb = "\<lambda>t. [real (length t)]"
         and tok = "\<lambda>b. int (length b)" and batchSize = 2 and fuel = 3
         and texts = "[''a'', ''bb'', ''ccc'', ''dddd'', ''eeeee'']"]
      good
    unfolding c by simp
qed

section \<open>Chunking: text without whitespace\<close>

lemma replace_crlf_id: "CR \<notin> set s \<Longrightarrow> replace_crlf s = s"
  by (induction s rule: replace_crlf.induct) auto

lemma collapse_newlines_id: "LF \<notin> set s \<Longrightarrow> collapse_newlines 0 s = s"
  by (induction s) auto

lemma collapse_spaces_id:
  "CHR '' '' \<notin> set s \<Longrightarrow> TAB \<notin> set s \<Longrightarrow> collapse_spaces False s = s"
  by (induction s) auto

lemma js_trim_id: "\<forall>c \<in> set s. \<not> is_js_whitespace c \<Longrightarrow> js_trim s = s"
proof -
  assume a: "\<forall>c \<in> set s. \<not> is_js_whitespace c"
  have d: "\<And>xs. \<forall>c \<in> set xs. \<not> is_js_whitespace c \<Longrightarrow> dropWhile is_js_whitespace xs = xs"
    by (case_tac xs) auto
  from a have "dropWhile is_js_whitespace s = s" by (rule d)
  moreover from a have "dropWhile is_js_whitespace (rev s) = rev s" by (intro d) simp
  ultimately show ?thesis by (simp add: js_trim_def)
qed

lemma clean_text_id:
  assumes "\<forall>c \<in> set s. \<not> is_js_whitespace c"
  shows "clean_text s = s"
proof -
  from assms have "CR \<notin> set s" "LF \<notin> set s" "CHR '' '' \<notin> set s" "TAB \<notin> set s"
    by (auto simp: is_js_whitespace_def)
  with assms show ?thesis
    by (simp add: clean_text_def replace_crlf_id collapse_newlines_id collapse_spaces_id js_trim_id)
qed

lemma set_js_substring: "set (js_substring s a b) \<subseteq> set s"
  unfolding js_substring_def Let_def
  by (meson set_take_subset set_drop_subset subset_trans)

lemma js_lastIndexOf_none:
  assumes "\<forall>c \<in> set seg. \<not> is_js_whitespace c" "\<exists>c \<in> set sep. is_js_whitespace c"
  shows "js_lastIndexOf seg sep pos = - 1"
proof -
  have "\<And>k. take (length sep) (drop k seg) \<noteq> sep"
  proof
    fix k assume "take (length sep) (drop k seg) = sep"
    then have "set sep \<subseteq> set seg"
      by (metis set_take_subset set_drop_subset subset_trans)
    with assms show False by blast
  qed
  then have "find (\<lambda>k. take (length sep) (drop k seg) = sep) xs = None" for xs
    by (simp add: find_None_iff)
  then show ?thesis by (simp add: js_lastIndexOf_def Let_def)
qed

lemma find_split_none:
  assumes "\<forall>c \<in> set txt. \<not> is_js_whitespace c"
    and "\<forall>sep \<in> set seps. \<exists>c \<in> set sep. is_js_whitespace c"
  shows "find_split txt s e seps = None"
  using assms(2)
proof (induction seps)
  case Nil
  show ?case by simp
next
  case (Cons sep seps)
  have "\<forall>c \<in> set (js_substring txt a b). \<not> is_js_whitespace c" for a b
    using assms(1) set_js_substring by blast
  then have "js_lastIndexOf (js_substring txt a b) sep pos = - 1" for a b pos
    using Cons.prems by (intro js_lastIndexOf_none) auto
  with Cons show ?case by (simp add: Let_def)
qed

lemma js_substring_inner:
  assumes "0 \<le> a" "a \<le> b" "b \<le> int (length s)"
  shows "js_substring s a b = take (nat (b - a)) (drop (nat a) s)"
  using assms by (simp add: js_substring_def Let_def min_def max_def)

lemma chunk_step_ws_free:
  assumes ws: "\<forall>c \<in> set txt. \<not> is_js_whitespace c"
    and seps: "\<forall>sep \<in> set (opt_separators opts). \<exists>c \<in> set sep. is_js_whitespace c"
    and C: "1 \<le> opt_chunkSize opts"
    and s: "0 \<le> startPos st" "startPos st < int (length txt)"
  shows "chunk_step opts txt st =
     (let e = min (startPos st + opt_chunkSize opts) (int (length txt))
      in \<lparr>startPos = (if e - opt_chunkOverlap opts \<le> startPos st then e else e - opt_chunkOverlap opts),
          chunks = chunks st @ [\<lparr>chunk_text = take (nat (e - startPos st)) (drop (nat (startPos st)) txt),
                                 chunk_index = chunkIndex st,
                                 startPosition = startPos st, endPosition = e,
                                 chunk_metadata = None\<rparr>],
          chunkIndex = Suc (chunkIndex st)\<rparr>)"
proof -
  define e where "e = min (startPos st + opt_chunkSize opts) (int (length txt))"
  have e: "startPos st < e" "e \<le> int (length txt)" using C s by (auto simp: e_def)
  have sub: "js_substring txt (startPos st) e = take (nat (e - startPos st)) (drop (nat (startPos st)) txt)"
    using s e by (intro js_substring_inner) auto
  have ne: "take (nat (e - startPos st)) (drop (nat (startPos st)) txt) \<noteq> []"
    using s e by auto
  have "\<forall>c \<in> set (js_substring txt (startPos st) e). \<not> is_js_whitespace c"
    using ws set_js_substring by blast
  then have tr: "js_trim (js_substring txt (startPos st) e) = js_substring txt (startPos st) e"
    by (rule js_trim_id)
  have k: "js_trim (js_substring txt (startPos st) e)
             = take (nat (e - startPos st)) (drop (nat (startPos st)) txt)"
    using tr sub by simp
  show ?thesis
    unfolding chunk_step_def find_split_none[OF ws seps] Let_def e_def[symmetric]
    using ne by (simp add: k)
qed

lemma ceiling_mult_ge:
  fixes n d :: int
  assumes "0 < d"
  shows "n \<le> \<lceil>real_of_int n / real_of_int d\<rceil> * d"
proof -
  have "real_of_int n \<le> of_int \<lceil>real_of_int n / real_of_int d\<rceil> * real_of_int d"
    using assms by (intro ceiling_divide_upper) simp
  then have "real_of_int n \<le> real_of_int (\<lceil>real_of_int n / real_of_int d\<rceil> * d)" by simp
  then show ?thesis by (simp only: of_int_le_iff)
qed

section \<open>Chunking: progress of the cursor and termination\<close>

lemma js_lastIndexOf_range: "js_lastIndexOf s sep pos = - 1 \<or> 0 \<le> js_lastIndexOf s sep pos"
  by (simp add: js_lastIndexOf_def Let_def split: option.split)

lemma find_split_lower:
  "find_split txt s e seps = Some b \<Longrightarrow> max s (e - 200) \<le> b"
proof (induction seps)
  case Nil
  then show ?case by simp
next
  case (Cons sep seps)
  let ?r = "js_lastIndexOf (js_substring txt (max s (e - 200)) (min (e + 100) (int (length txt)))) sep
              (e - max s (e - 200))"
  show ?case
  proof (cases "?r = - 1")
    case True
    with Cons show ?thesis by (simp add: Let_def)
  next
    case False
    with js_lastIndexOf_range[of _ sep] have "0 \<le> ?r" by blast
    moreover from False Cons.prems have "b = max s (e - 200) + ?r + int (length sep)"
      by (simp add: Let_def)
    ultimately show ?thesis by linarith
  qed
qed

lemma js_trim_nonempty:
  assumes "xs \<noteq> []" "\<not> is_js_whitespace (last xs)"
  shows "js_trim xs \<noteq> []"
proof -
  define ys where "ys = dropWhile is_js_whitespace xs"
  from assms have "last xs \<in> set xs" by simp
  with assms(2) have ne: "ys \<noteq> []"
    unfolding ys_def by (auto simp add: dropWhile_eq_Nil_conv)
  have "xs = takeWhile is_js_whitespace xs @ ys" by (simp add: ys_def)
  then have "last xs = last (takeWhile is_js_whitespace xs @ ys)" by simp
  also have "\<dots> = last ys" using ne by (rule last_appendR)
  finally have l: "\<not> is_js_whitespace (last ys)" using assms(2) by simp
  obtain z zs where r: "rev ys = z # zs" using ne by (cases "rev ys") auto
  then have "z = last ys" using ne by (metis hd_rev list.sel(1))
  with l have "\<not> is_js_whitespace z" by simp
  then have "dropWhile is_js_whitespace (z # zs) = z # zs" by simp
  then have "dropWhile is_js_whitespace (rev ys) = rev ys" by (simp only: r)
  then have "js_trim xs = ys" by (simp add: js_trim_def ys_def)
  with ne show ?thesis by simp
qed

lemma js_trim_last:
  assumes "js_trim xs \<noteq> []"
  shows "\<not> is_js_whitespace (last (js_trim xs))"
proof -
  let ?zs = "dropWhile is_js_whitespace (rev (dropWhile is_js_whitespace xs))"
  from assms have ne: "?zs \<noteq> []" by (simp add: js_trim_def)
  then have "\<not> is_js_whitespace (hd ?zs)" by (rule hd_dropWhile)
  moreover have "last (js_trim xs) = hd ?zs" using ne by (simp add: js_trim_def last_rev)
  ultimately show ?thesis by simp
qed

lemma clean_text_last:
  "clean_text t \<noteq> [] \<Longrightarrow> \<not> is_js_whitespace (last (clean_text t))"
  unfolding clean_text_def by (rule js_trim_last)

lemma step_spec_ws_free:
  assumes ws: "\<forall>c \<in> set txt. \<not> is_js_whitespace c"
    and seps: "\<forall>sep \<in> set (opt_separators opts). \<exists>c \<in> set sep. is_js_whitespace c"
    and O: "opt_chunkOverlap opts < opt_chunkSize opts" "0 \<le> opt_chunkOverlap opts"
  shows "step_spec opts txt (opt_chunkSize opts - opt_chunkOverlap opts)"
  unfolding step_spec_def
proof (intro allI impI, elim conjE)
  fix st :: chunk_state
  assume s: "0 \<le> startPos st" "startPos st < int (length txt)"
  have C: "1 \<le> opt_chunkSize opts" using O by simp
  show "(startPos st + opt_chunkSize opts < int (length txt)
           \<longrightarrow> startPos st + (opt_chunkSize opts - opt_chunkOverlap opts) \<le> startPos (chunk_step opts txt st))
      \<and> (int (length txt) \<le> startPos st + opt_chunkSize opts
           \<longrightarrow> startPos (chunk_step opts txt st)
                = (if int (length txt) - opt_chunkOverlap opts \<le> startPos st then int (length txt)
                   else int (length txt) - opt_chunkOverlap opts))"
    unfolding chunk_step_ws_free[OF ws seps C s] Let_def using O by auto
qed

lemma chunk_step_startPos:
  "startPos (chunk_step opts txt st) =
     (let e0 = min (startPos st + opt_chunkSize opts) (int (length txt));
          endPos = (if e0 < int (length txt)
                    then (case find_split txt (startPos st) e0 (opt_separators opts) of
                            Some bestSplitPos \<Rightarrow> bestSplitPos
                          | None \<Rightarrow> e0)
                    else e0);
          pushed = (js_trim (js_substring txt (startPos st) endPos) \<noteq> [])
      in if (if pushed then endPos - opt_chunkOverlap opts \<le> startPos st
             else chunks st \<noteq> [] \<and> endPos - opt_chunkOverlap opts \<le> startPosition (last (chunks st)))
         then endPos else endPos - opt_chunkOverlap opts)"
  by (simp add: chunk_step_def Let_def)

lemma step_spec_normalised:
  assumes last: "txt \<noteq> []" "\<not> is_js_whitespace (last txt)"
    and O: "0 \<le> opt_chunkOverlap opts" "opt_chunkOverlap opts + 200 < opt_chunkSize opts"
  shows "step_spec opts txt (opt_chunkSize opts - opt_chunkOverlap opts - 200)"
  unfolding step_spec_def
proof (intro allI impI, elim conjE)
  fix st :: chunk_state
  assume s: "0 \<le> startPos st" "startPos st < int (length txt)"
  let ?s = "startPos st" and ?C = "opt_chunkSize opts" and ?O = "opt_chunkOverlap opts"
  let ?len = "int (length txt)"
  define e0 where "e0 = min (?s + ?C) ?len"
  define endPos where "endPos = (if e0 < ?len
                    then (case find_split txt ?s e0 (opt_separators opts) of
                            Some bestSplitPos \<Rightarrow> bestSplitPos
                          | None \<Rightarrow> e0)
                    else e0)"
  define pushed where "pushed \<longleftrightarrow> js_trim (js_substring txt ?s endPos) \<noteq> []"
  have sp: "startPos (chunk_step opts txt st)
            = (if (if pushed then endPos - ?O \<le> ?s
                   else chunks st \<noteq> [] \<and> endPos - ?O \<le> startPosition (last (chunks st)))
               then endPos else endPos - ?O)"
    unfolding chunk_step_startPos pushed_def endPos_def e0_def Let_def ..
  have a: "?s + ?C < ?len \<longrightarrow> ?s + (?C - ?O - 200) \<le> startPos (chunk_step opts txt st)"
  proof
    assume lt: "?s + ?C < ?len"
    then have e0: "e0 = ?s + ?C" "e0 < ?len" by (simp_all add: e0_def)
    have "e0 - 200 \<le> endPos"
    proof (cases "find_split txt ?s e0 (opt_separators opts)")
      case None
      then show ?thesis using e0 by (simp add: endPos_def)
    next
      case (Some b)
      from find_split_lower[OF this] Some e0 show ?thesis by (simp add: endPos_def)
    qed
    with e0 O have "?s + (?C - ?O - 200) \<le> endPos - ?O" "endPos - ?O \<le> endPos" by simp_all
    then show "?s + (?C - ?O - 200) \<le> startPos (chunk_step opts txt st)"
      unfolding sp by simp
  qed
  have b: "?len \<le> ?s + ?C \<longrightarrow> startPos (chunk_step opts txt st)
                = (if ?len - ?O \<le> ?s then ?len else ?len - ?O)"
  proof
    assume ge: "?len \<le> ?s + ?C"
    then have e: "endPos = ?len" by (simp add: endPos_def e0_def)
    have "js_substring txt ?s ?len = take (nat (?len - ?s)) (drop (nat ?s) txt)"
      using s by (intro js_substring_inner) simp_all
    moreover have "length (drop (nat ?s) txt) \<le> nat (?len - ?s)" using s by simp
    ultimately have sub: "js_substring txt ?s ?len = drop (nat ?s) txt" by simp
    have dn: "drop (nat ?s) txt \<noteq> []" using s by simp
    then have "last (drop (nat ?s) txt) = last txt" using s by (simp add: last_drop)
    with last dn have "js_trim (drop (nat ?s) txt) \<noteq> []"
      by (intro js_trim_nonempty) simp_all
    then have pushed by (simp add: pushed_def e sub)
    then show "startPos (chunk_step opts txt st) = (if ?len - ?O \<le> ?s then ?len else ?len - ?O)"
      unfolding sp e by simp
  qed
  from a b show "(?s + ?C < ?len \<longrightarrow> ?s + (?C - ?O - 200) \<le> startPos (chunk_step opts txt st))
      \<and> (?len \<le> ?s + ?C \<longrightarrow> startPos (chunk_step opts txt st)
                = (if ?len - ?O \<le> ?s then ?len else ?len - ?O))"
    by blast
qed

lemma step_spec_progress:
  assumes "step_spec opts txt d" "0 < d" "0 \<le> startPos st" "startPos st < int (length txt)"
  shows "startPos st < startPos (chunk_step opts txt st)"
proof (cases "startPos st + opt_chunkSize opts < int (length txt)")
  case True
  with assms(1,3,4) have "startPos st + d \<le> startPos (chunk_step opts txt st)"
    unfolding step_spec_def by blast
  with assms(2) show ?thesis by linarith
next
  case False
  then have "int (length txt) \<le> startPos st + opt_chunkSize opts" by simp
  with assms(1,3,4) have "startPos (chunk_step opts txt st)
      = (if int (length txt) - opt_chunkOverlap opts \<le> startPos st then int (length txt)
         else int (length txt) - opt_chunkOverlap opts)"
    unfolding step_spec_def by blast
  with assms(4) show ?thesis by (simp split: if_splits)
qed

lemma chunk_loop_terminates:
  assumes spec: "step_spec opts txt d"
    and d: "0 < d" and O: "opt_chunkOverlap opts < opt_chunkSize opts"
  shows "0 \<le> startPos st \<Longrightarrow>
     int (length txt) \<le> startPos st
     \<or> (1 \<le> fuel \<and> int (length txt) \<le> startPos st + opt_chunkOverlap opts)
     \<or> (2 \<le> fuel \<and> int (length txt) \<le> startPos st + opt_chunkSize opts + (int fuel - 2) * d) \<Longrightarrow>
     \<exists>st'. chunk_loop fuel opts txt st = Some st'"
proof (induction fuel arbitrary: st)
  case 0
  then show ?case by auto
next
  case (Suc fuel)
  let ?s = "startPos st" and ?C = "opt_chunkSize opts" and ?O = "opt_chunkOverlap opts"
  let ?len = "int (length txt)"
  show ?case
  proof (cases "?s < ?len")
    case False
    then show ?thesis by simp
  next
    case True
    let ?st1 = "chunk_step opts txt st"
    from spec Suc.prems(1) True
    have far: "?s + ?C < ?len \<Longrightarrow> ?s + d \<le> startPos ?st1"
      and near: "?len \<le> ?s + ?C \<Longrightarrow> startPos ?st1 = (if ?len - ?O \<le> ?s then ?len else ?len - ?O)"
      unfolding step_spec_def by blast+
    have nn: "0 \<le> startPos ?st1"
      using step_spec_progress[OF spec d Suc.prems(1) True] Suc.prems(1) by simp
    have q: "?len \<le> startPos ?st1
       \<or> (1 \<le> fuel \<and> ?len \<le> startPos ?st1 + ?O)
       \<or> (2 \<le> fuel \<and> ?len \<le> startPos ?st1 + ?C + (int fuel - 2) * d)"
    proof (cases "?len \<le> ?s + ?O")
      case a: True
      with O have "?len \<le> ?s + ?C" by simp
      from near[OF this] a show ?thesis by simp
    next
      case na: False
      with Suc.prems(2) True
      have b: "?len \<le> ?s + ?C + (int fuel - 1) * d" and f1: "1 \<le> fuel"
        by auto
      show ?thesis
      proof (cases "?s + ?C < ?len")
        case False
        then have "?len \<le> ?s + ?C" by simp
        from near[OF this] na have "startPos ?st1 = ?len - ?O" by simp
        with f1 show ?thesis by simp
      next
        case lt: True
        have "0 < (int fuel - 1) * d" using b lt by linarith
        with d have "1 < int fuel" by (simp add: zero_less_mult_iff)
        then have f2: "2 \<le> fuel" by simp
        have "?s + ?C + (int fuel - 1) * d = (?s + d) + ?C + (int fuel - 2) * d"
          by (simp add: algebra_simps)
        with b far[OF lt] have "?len \<le> startPos ?st1 + ?C + (int fuel - 2) * d" by linarith
        with f2 show ?thesis by simp
      qed
    qed
    from Suc.IH[OF nn q] True show ?thesis by simp
  qed
qed

lemma chunk_loop_terminates_bound:
  assumes spec: "step_spec opts txt d"
    and d: "0 < d" "d \<le> opt_chunkSize opts" and O: "opt_chunkOverlap opts < opt_chunkSize opts"
    and ne: "txt \<noteq> []"
    and fuel: "nat \<lceil>real (length txt) / real_of_int d\<rceil> + 1 \<le> fuel"
  shows "\<exists>st'. chunk_loop fuel opts txt \<lparr>startPos = 0, chunks = [], chunkIndex = 0\<rparr> = Some st'"
proof -
  define k where "k = \<lceil>real_of_int (int (length txt)) / real_of_int d\<rceil>"
  have len: "int (length txt) \<le> k * d" unfolding k_def using d(1) by (rule ceiling_mult_ge)
  from ne have "0 < int (length txt)" by simp
  with len d(1) have k1: "1 \<le> k"
    by (smt (verit) mult_le_0_iff)
  have "k = \<lceil>real (length txt) / real_of_int d\<rceil>" by (simp add: k_def)
  with fuel have f: "k + 1 \<le> int fuel" using k1 by linarith
  then have f2: "2 \<le> fuel" using k1 by linarith
  from f have "k - 1 \<le> int fuel - 2" by simp
  then have "(k - 1) * d \<le> (int fuel - 2) * d"
    using d(1) by (intro mult_right_mono) simp_all
  then have "k * d - d \<le> (int fuel - 2) * d" by (simp add: algebra_simps)
  with len d(2) have q: "int (length txt) \<le> 0 + opt_chunkSize opts + (int fuel - 2) * d" by linarith
  let ?st0 = "\<lparr>startPos = 0, chunks = [], chunkIndex = 0\<rparr>"
  have i0: "0 \<le> startPos ?st0" by simp
  have "int (length txt) \<le> startPos ?st0
     \<or> (1 \<le> fuel \<and> int (length txt) \<le> startPos ?st0 + opt_chunkOverlap opts)
     \<or> (2 \<le> fuel \<and> int (length txt) \<le> startPos ?st0 + opt_chunkSize opts + (int fuel - 2) * d)"
    using q f2 by simp
  with i0 show ?thesis by (rule chunk_loop_terminates[OF spec d(1) O])
qed

lemma chunk_loop_stuck:
  assumes "chunk_step opts txt st = st" "startPos st < int (length txt)"
  shows "chunk_loop fuel opts txt st = None"
  using assms by (induction fuel) simp_all

lemma two_paragraphs_first_step:
  "chunk_step (merge_chunk_options (size_overlap 4 2)) two_paragraphs
     \<lparr>startPos = 0, chunks = [], chunkIndex = 0\<rparr>
   = \<lparr>startPos = 4,
      chunks = [\<lparr>chunk_text = ''abcd'', chunk_index = 0, startPosition = 0, endPosition = 6,
                 chunk_metadata = None\<rparr>],
      chunkIndex = Suc 0\<rparr>"
  by code_simp

lemma two_paragraphs_second_step:
  "chunk_step (merge_chunk_options (size_overlap 4 2)) two_paragraphs
     \<lparr>startPos = 4,
      chunks = [\<lparr>chunk_text = ''abcd'', chunk_index = 0, startPosition = 0, endPosition = 6,
                 chunk_metadata = None\<rparr>],
      chunkIndex = Suc 0\<rparr>
   = \<lparr>startPos = 4,
      chunks = [\<lparr>chunk_text = ''abcd'', chunk_index = 0, startPosition = 0, endPosition = 6,
                 chunk_metadata = None\<rparr>],
      chunkIndex = Suc 0\<rparr>"
  by code_simp

lemma two_paragraphs_clean: "clean_text two_paragraphs = two_paragraphs" "length two_paragraphs = 10"
  by code_simp+

lemma chunk_loop_two_paragraphs:
  "chunk_loop fuel (merge_chunk_options (size_overlap 4 2)) two_paragraphs
     \<lparr>startPos = 0, chunks = [], chunkIndex = 0\<rparr> = None"
proof -
  let ?opts = "merge_chunk_options (size_overlap 4 2)"
  let ?st1 = "\<lparr>startPos = 4,
      chunks = [\<lparr>chunk_text = ''abcd'', chunk_index = 0, startPosition = 0, endPosition = 6,
                 chunk_metadata = None\<rparr>],
      chunkIndex = Suc 0\<rparr>"
  have stuck: "chunk_loop f ?opts two_paragraphs ?st1 = None" for f
    by (rule chunk_loop_stuck[OF two_paragraphs_second_step]) (simp add: two_paragraphs_clean)
  show ?thesis
  proof (cases fuel)
    case 0
    then show ?thesis by (simp add: two_paragraphs_clean)
  next
    case (Suc f)
    then show ?thesis
      by (simp add: two_paragraphs_clean two_paragraphs_first_step stuck)
  qed
qed

text \<open>
  C8: the claim does not hold of the code, which misses what its own comment
  (\<open>Make sure we're making progress\<close>) announces. The test compares the new cursor with
  the start of the last chunk that was pushed, not with the cursor of this iteration.
  When an iteration cuts a piece that is all whitespace, no chunk is pushed and the
  cursor can stay where it was. On two paragraphs of four letters, a text of ten
  characters, with size 4 and overlap 2 the second iteration cuts the two line feeds,
  pushes nothing and leaves the cursor at 4, while the start of the last chunk is 0:
  the state does not change, and \<open>chunkText\<close> does not return, whatever the number of
  iterations it is given. The claim promises at most \<open>\<lceil>10 / (4 - 2)\<rceil> = 5\<close>.
\<close>

theorem chunkText_two_paragraphs_never_returns:
  "chunkText fuel two_paragraphs (size_overlap 4 2) = None"
proof -
  have "\<not> opt_preserveWhitespace (merge_chunk_options (size_overlap 4 2))" "two_paragraphs \<noteq> []"
    by (simp_all add: merge_chunk_options_def size_overlap_def two_paragraphs_def)
  then show ?thesis
    by (simp add: chunkText_def Let_def two_paragraphs_clean chunk_loop_two_paragraphs)
qed

text \<open>
  Two facts beside it. The iteration that makes no progress, stated as one step of the
  loop: it returns the state it was given, with the cursor still inside the text. And a
  run that does end can need more iterations than \<open>\<lceil>length / (size - overlap)\<rceil>\<close>: on
  \<open>abcde\<close> with size 4 and overlap 1 two iterations are not enough, since the tail is
  visited once more after the cursor has stepped back by the overlap.
\<close>

theorem chunkText_bound_and_progress_fail:
  "nat \<lceil>real (length ''abcde'') / real_of_int (4 - 1)\<rceil> = 2
   \<and> chunkText 2 ''abcde'' (size_overlap 4 1) = None
   \<and> chunk_step (merge_chunk_options (size_overlap 4 2)) two_paragraphs
        (chunk_step (merge_chunk_options (size_overlap 4 2)) two_paragraphs
           \<lparr>startPos = 0, chunks = [], chunkIndex = 0\<rparr>)
      = chunk_step (merge_chunk_options (size_overlap 4 2)) two_paragraphs
           \<lparr>startPos = 0, chunks = [], chunkIndex = 0\<rparr>
   \<and> startPos (chunk_step (merge_chunk_options (size_overlap 4 2)) two_paragraphs
           \<lparr>startPos = 0, chunks = [], chunkIndex = 0\<rparr>) < int (length two_paragraphs)"
proof -
  have "nat \<lceil>real (length ''abcde'') / real_of_int (4 - 1)\<rceil> = 2" by simp
  moreover have "chunkText 2 ''abcde'' (size_overlap 4 1) = None" by code_simp
  ultimately show ?thesis
    by (simp add: two_paragraphs_first_step two_paragraphs_second_step two_paragraphs_clean)
qed

lemma chunkText_unfold:
  assumes "opts = merge_chunk_options options"
    and "cleanText = (if opt_preserveWhitespace opts then txt else clean_text txt)"
  shows "chunkText fuel txt options =
     (if cleanText = [] then Some []
      else map_option chunks
             (chunk_loop fuel opts cleanText \<lparr>startPos = 0, chunks = [], chunkIndex = 0\<rparr>))"
  unfolding assms by (simp add: chunkText_def Let_def)

text \<open>
  Where the guard does suffice. Let the overlap be at least 0 and let \<open>d\<close> be
  \<open>size - overlap - 200\<close> for a text whose whitespace is normalised, provided
  \<open>overlap + 200 < size\<close> (200 is the width of the window in which a separator is searched
  before the cut), or \<open>size - overlap\<close> for a text without whitespace characters, with
  separators that each contain one, provided \<open>overlap < size\<close>. Then every iteration of
  the loop strictly advances the cursor, and \<open>chunkText\<close> returns after at most
  \<open>\<lceil>length / d\<rceil> + 1\<close> iterations, the length being that of the text the loop works on.
\<close>

theorem chunkText_progress_and_iterations:
  assumes opts: "opts = merge_chunk_options options"
    and ct: "cleanText = (if opt_preserveWhitespace opts then doc else clean_text doc)"
    and O: "0 \<le> opt_chunkOverlap opts"
    and cfg: "(\<not> opt_preserveWhitespace opts \<and> opt_chunkOverlap opts + 200 < opt_chunkSize opts
               \<and> d = opt_chunkSize opts - opt_chunkOverlap opts - 200)
            \<or> ((\<forall>c \<in> set doc. \<not> is_js_whitespace c)
               \<and> (\<forall>sep \<in> set (opt_separators opts). \<exists>c \<in> set sep. is_js_whitespace c)
               \<and> opt_chunkOverlap opts < opt_chunkSize opts
               \<and> d = opt_chunkSize opts - opt_chunkOverlap opts)"
  shows "(\<forall>st. 0 \<le> startPos st \<and> startPos st < int (length cleanText)
              \<longrightarrow> startPos st < startPos (chunk_step opts cleanText st))
       \<and> (\<forall>fuel \<ge> nat \<lceil>real (length cleanText) / real_of_int d\<rceil> + 1.
              \<exists>cs. chunkText fuel doc options = Some cs)"
proof (cases "cleanText = []")
  case True
  have "chunkText fuel doc options = Some []" for fuel
    unfolding chunkText_unfold[OF opts ct] using True by simp
  with True show ?thesis by simp
next
  case False
  have spec: "step_spec opts cleanText d" and d: "0 < d" "d \<le> opt_chunkSize opts"
    and lt: "opt_chunkOverlap opts < opt_chunkSize opts"
  proof -
    from cfg show "step_spec opts cleanText d"
    proof
      assume a: "\<not> opt_preserveWhitespace opts \<and> opt_chunkOverlap opts + 200 < opt_chunkSize opts
               \<and> d = opt_chunkSize opts - opt_chunkOverlap opts - 200"
      with ct have c: "cleanText = clean_text doc" by simp
      with False have "\<not> is_js_whitespace (last cleanText)" by (simp add: clean_text_last)
      with False a O show ?thesis by (simp add: step_spec_normalised)
    next
      assume b: "(\<forall>c \<in> set doc. \<not> is_js_whitespace c)
               \<and> (\<forall>sep \<in> set (opt_separators opts). \<exists>c \<in> set sep. is_js_whitespace c)
               \<and> opt_chunkOverlap opts < opt_chunkSize opts
               \<and> d = opt_chunkSize opts - opt_chunkOverlap opts"
      then have "clean_text doc = doc" by (simp add: clean_text_id)
      with ct have c: "cleanText = doc" by simp
      from b O show ?thesis unfolding c by (simp add: step_spec_ws_free)
    qed
    from cfg O show "0 < d" "d \<le> opt_chunkSize opts" "opt_chunkOverlap opts < opt_chunkSize opts"
      by auto
  qed
  have "\<forall>st. 0 \<le> startPos st \<and> startPos st < int (length cleanText)
              \<longrightarrow> startPos st < startPos (chunk_step opts cleanText st)"
    using step_spec_progress[OF spec d(1)] by blast
  moreover have "\<forall>fuel \<ge> nat \<lceil>real (length cleanText) / real_of_int d\<rceil> + 1.
              \<exists>cs. chunkText fuel doc options = Some cs"
  proof (intro allI impI)
    fix fuel assume "nat \<lceil>real (length cleanText) / real_of_int d\<rceil> + 1 \<le> fuel"
    from chunk_loop_terminates_bound[OF spec d lt False this]
    obtain st' where "chunk_loop fuel opts cleanText \<lparr>startPos = 0, chunks = [], chunkIndex = 0\<rparr> = Some st'"
      by blast
    then show "\<exists>cs. chunkText fuel doc options = Some cs"
      unfolding chunkText_unfold[OF opts ct] using False by simp
  qed
  ultimately show ?thesis by blast
qed

lemma long_words_clean: "clean_text long_words = long_words"
  by code_simp

lemma long_words_length: "length long_words = 211"
  by (simp add: long_words_def)

theorem chunkText_progress_and_iterations_witness:
  "list_all (\<lambda>c. \<not> is_js_whitespace c) ''abcde''
   \<and> (\<exists>cs. chunkText 3 ''abcde'' (size_overlap 4 1) = Some cs)
   \<and> 3 < startPos (chunk_step (merge_chunk_options (size_overlap 4 1)) ''abcde''
                     \<lparr>startPos = 3, chunks = [], chunkIndex = 0\<rparr>)
   \<and> length long_words = 211
   \<and> (\<exists>cs. chunkText 212 long_words (size_overlap 201 0) = Some cs)
   \<and> 0 < startPos (chunk_step (merge_chunk_options (size_overlap 201 0)) long_words
                     \<lparr>startPos = 0, chunks = [], chunkIndex = 0\<rparr>)"
proof -
  let ?o1 = "merge_chunk_options (size_overlap 4 1)"
  let ?o2 = "merge_chunk_options (size_overlap 201 0)"
  have ws: "\<forall>c \<in> set ''abcde''. \<not> is_js_whitespace c"
    by (simp add: is_js_whitespace_def)
  have o1: "opt_chunkSize ?o1 = 4" "opt_chunkOverlap ?o1 = 1" "opt_separators ?o1 = DEFAULT_SEPARATORS"
    "\<not> opt_preserveWhitespace ?o1"
    by (simp_all add: merge_chunk_options_def size_overlap_def)
  have o2: "opt_chunkSize ?o2 = 201" "opt_chunkOverlap ?o2 = 0" "\<not> opt_preserveWhitespace ?o2"
    by (simp_all add: merge_chunk_options_def size_overlap_def)
  have seps: "\<forall>sep \<in> set DEFAULT_SEPARATORS. \<exists>c \<in> set sep. is_js_whitespace c"
    by (simp add: DEFAULT_SEPARATORS_def is_js_whitespace_def)
  have c1: "clean_text ''abcde'' = ''abcde''"
    by code_simp
  have a: "(\<forall>st. 0 \<le> startPos st \<and> startPos st < int (length ''abcde'')
              \<longrightarrow> startPos st < startPos (chunk_step ?o1 ''abcde'' st))
       \<and> (\<forall>fuel \<ge> nat \<lceil>real (length ''abcde'') / real_of_int 3\<rceil> + 1.
              \<exists>cs. chunkText fuel ''abcde'' (size_overlap 4 1) = Some cs)"
    using chunkText_progress_and_iterations
      [where opts = "?o1" and options = "size_overlap 4 1" and doc = "''abcde''"
         and cleanText = "''abcde''" and d = 3]
    by (simp add: o1 c1 ws seps)
  have b: "(\<forall>st. 0 \<le> startPos st \<and> startPos st < int (length long_words)
              \<longrightarrow> startPos st < startPos (chunk_step ?o2 long_words st))
       \<and> (\<forall>fuel \<ge> nat \<lceil>real (length long_words) / real_of_int 1\<rceil> + 1.
              \<exists>cs. chunkText fuel long_words (size_overlap 201 0) = Some cs)"
    using chunkText_progress_and_iterations
      [where opts = "?o2" and options = "size_overlap 201 0" and doc = long_words
         and cleanText = long_words and d = 1]
    by (simp add: o2 long_words_clean)
  have "nat \<lceil>real (length ''abcde'') / real_of_int 3\<rceil> + 1 = 3"
       "nat \<lceil>real (length long_words) / real_of_int 1\<rceil> + 1 = 212"
    by (simp_all add: long_words_length)
  with a b have "\<exists>cs. chunkText 3 ''abcde'' (size_overlap 4 1) = Some cs"
      "\<exists>cs. chunkText 212 long_words (size_overlap 201 0) = Some cs"
    by (metis order_refl)+
  moreover from a have "startPos \<lparr>startPos = 3, chunks = [], chunkIndex = 0\<rparr>
      < startPos (chunk_step ?o1 ''abcde'' \<lparr>startPos = 3, chunks = [], chunkIndex = 0\<rparr>)"
    by (elim conjE allE[where x = "\<lparr>startPos = 3, chunks = [], chunkIndex = 0\<rparr>"]) simp
  moreover from b have "startPos \<lparr>startPos = 0, chunks = [], chunkIndex = 0\<rparr>
      < startPos (chunk_step ?o2 long_words \<lparr>startPos = 0, chunks = [], chunkIndex = 0\<rparr>)"
    by (elim conjE allE[where x = "\<lparr>startPos = 0, chunks = [], chunkIndex = 0\<rparr>"])
       (simp add: long_words_length)
  ultimately show ?thesis using ws by (simp add: list_all_iff long_words_length)
qed

section \<open>Chunking: an overlap that is not below the size\<close>

lemma chunk_loop_partition:
  assumes ws: "\<forall>c \<in> set txt. \<not> is_js_whitespace c"
    and seps: "\<forall>sep \<in> set (opt_separators opts). \<exists>c \<in> set sep. is_js_whitespace c"
    and C: "1 \<le> opt_chunkSize opts" "opt_chunkSize opts \<le> opt_chunkOverlap opts"
  shows "0 \<le> startPos st \<Longrightarrow>
     nat \<lceil>real_of_int (int (length txt) - startPos st) / real_of_int (opt_chunkSize opts)\<rceil> \<le> fuel \<Longrightarrow>
     \<exists>st'. chunk_loop fuel opts txt st = Some st'
       \<and> concat (map chunk_text (chunks st')) = concat (map chunk_text (chunks st)) @ drop (nat (startPos st)) txt
       \<and> length (chunks st') = length (chunks st)
            + nat \<lceil>real_of_int (int (length txt) - startPos st) / real_of_int (opt_chunkSize opts)\<rceil>
       \<and> (\<forall>c \<in> set (chunks st'). c \<in> set (chunks st) \<or> int (length (chunk_text c)) \<le> opt_chunkSize opts)"
proof (induction fuel arbitrary: st)
  case 0
  have b: "0 < opt_chunkSize opts" using C by simp
  have "\<not> startPos st < int (length txt)"
  proof
    assume "startPos st < int (length txt)"
    then have "0 < int (length txt) - startPos st" by simp
    from ceiling_step[OF b this] "0.prems"(2) show False by simp
  qed
  then have "int (length txt) - startPos st \<le> 0" by simp
  from ceiling_nonpos[OF b this] \<open>\<not> startPos st < int (length txt)\<close> "0.prems"(1)
  show ?case by simp
next
  case (Suc fuel)
  let ?s = "startPos st" and ?C = "opt_chunkSize opts" and ?O = "opt_chunkOverlap opts"
  let ?len = "int (length txt)"
  have b: "0 < ?C" using C by simp
  show ?case
  proof (cases "?s < ?len")
    case False
    then have "?len - ?s \<le> 0" by simp
    from ceiling_nonpos[OF b this] False Suc.prems(1) show ?thesis by simp
  next
    case True
    define e where "e = min (?s + ?C) ?len"
    define piece where "piece = take (nat (e - ?s)) (drop (nat ?s) txt)"
    let ?st1 = "chunk_step opts txt st"
    have e: "?s < e" "e \<le> ?len" "e \<le> ?s + ?C" using C True by (auto simp: e_def)
    have st1: "?st1 = \<lparr>startPos = e,
          chunks = chunks st @ [\<lparr>chunk_text = piece, chunk_index = chunkIndex st,
                                 startPosition = ?s, endPosition = e, chunk_metadata = None\<rparr>],
          chunkIndex = Suc (chunkIndex st)\<rparr>"
      unfolding chunk_step_ws_free[OF ws seps C(1) Suc.prems(1) True] Let_def e_def[symmetric] piece_def
      using C(2) e by simp
    have i1: "0 \<le> startPos ?st1" using e Suc.prems(1) by (simp add: st1)
    from True have pos: "0 < ?len - ?s" by simp
    have cnt: "nat \<lceil>real_of_int (?len - ?s) / real_of_int ?C\<rceil>
               = Suc (nat \<lceil>real_of_int (?len - startPos ?st1) / real_of_int ?C\<rceil>)"
    proof (cases "?s + ?C \<le> ?len")
      case True
      then have "e = ?s + ?C" by (simp add: e_def)
      then show ?thesis using ceiling_step[OF b pos] by (simp add: st1 algebra_simps)
    next
      case False
      then have el: "e = ?len" by (simp add: e_def)
      from False have "?len - ?s - ?C \<le> 0" by simp
      from ceiling_nonpos[OF b this] ceiling_step[OF b pos] show ?thesis by (simp add: st1 el)
    qed
    have f1: "nat \<lceil>real_of_int (?len - startPos ?st1) / real_of_int ?C\<rceil> \<le> fuel"
      using Suc.prems(2) cnt by linarith
    from Suc.IH[OF i1 f1] obtain st' where
      r: "chunk_loop fuel opts txt ?st1 = Some st'"
      and c: "concat (map chunk_text (chunks st')) = concat (map chunk_text (chunks ?st1)) @ drop (nat (startPos ?st1)) txt"
      and l: "length (chunks st') = length (chunks ?st1)
            + nat \<lceil>real_of_int (?len - startPos ?st1) / real_of_int ?C\<rceil>"
      and a: "\<forall>c \<in> set (chunks st'). c \<in> set (chunks ?st1) \<or> int (length (chunk_text c)) \<le> ?C"
      by blast
    have "nat e = nat ?s + nat (e - ?s)" using e Suc.prems(1) by linarith
    then have "drop (nat e) txt = drop (nat (e - ?s)) (drop (nat ?s) txt)"
      by (simp add: add.commute)
    then have split: "piece @ drop (nat e) txt = drop (nat ?s) txt"
      by (simp only: piece_def append_take_drop_id)
    have c': "concat (map chunk_text (chunks st')) = concat (map chunk_text (chunks st)) @ drop (nat ?s) txt"
    proof -
      have "concat (map chunk_text (chunks st')) = concat (map chunk_text (chunks st)) @ (piece @ drop (nat e) txt)"
        using c by (simp add: st1)
      then show ?thesis by (simp only: split)
    qed
    have l': "length (chunks st') = length (chunks st) + nat \<lceil>real_of_int (?len - ?s) / real_of_int ?C\<rceil>"
      using l cnt by (simp add: st1)
    have pl: "int (length piece) \<le> ?C" using e by (simp add: piece_def)
    have a': "\<forall>c \<in> set (chunks st'). c \<in> set (chunks st) \<or> int (length (chunk_text c)) \<le> ?C"
    proof
      fix c assume "c \<in> set (chunks st')"
      with a have "c \<in> set (chunks ?st1) \<or> int (length (chunk_text c)) \<le> ?C" by blast
      then show "c \<in> set (chunks st) \<or> int (length (chunk_text c)) \<le> ?C"
        using pl by (auto simp add: st1)
    qed
    have "chunk_loop (Suc fuel) opts txt st = chunk_loop fuel opts txt ?st1" using True by simp
    with r c' l' a' show ?thesis by simp
  qed
qed

text \<open>
  C3 (amended): for every text without whitespace characters and every configuration with
  \<open>overlap \<ge> size \<ge> 1\<close> whose separators each contain a whitespace character, as the
  default separators do, \<open>chunkText\<close> does not reject the configuration: once it is allowed
  \<open>\<lceil>length / size\<rceil>\<close> iterations it returns \<open>\<lceil>length / size\<rceil>\<close> chunks of at most \<open>size\<close>
  characters each, which follow one another without overlap and together spell the
  text. Nothing is stated here for a text that contains whitespace.
\<close>

theorem chunkText_overlap_ge_size_chunks:
  assumes opts: "opts = merge_chunk_options options"
    and ws: "\<forall>c \<in> set doc. \<not> is_js_whitespace c"
    and seps: "\<forall>sep \<in> set (opt_separators opts). \<exists>c \<in> set sep. is_js_whitespace c"
    and C: "1 \<le> opt_chunkSize opts" "opt_chunkSize opts \<le> opt_chunkOverlap opts"
    and fuel: "nat \<lceil>real (length doc) / real_of_int (opt_chunkSize opts)\<rceil> \<le> fuel"
  shows "\<exists>cs. chunkText fuel doc options = Some cs
           \<and> concat (map chunk_text cs) = doc
           \<and> length cs = nat \<lceil>real (length doc) / real_of_int (opt_chunkSize opts)\<rceil>
           \<and> (\<forall>c \<in> set cs. int (length (chunk_text c)) \<le> opt_chunkSize opts)"
proof -
  have ct: "(if opt_preserveWhitespace opts then doc else clean_text doc) = doc"
    using ws by (simp add: clean_text_id)
  note unf = chunkText_unfold[OF opts ct[symmetric]]
  show ?thesis
  proof (cases "doc = []")
    case True
    then show ?thesis unfolding unf by simp
  next
    case False
    let ?st0 = "\<lparr>startPos = 0, chunks = [], chunkIndex = 0\<rparr>"
    have i0: "0 \<le> startPos ?st0" by simp
    have f0: "nat \<lceil>real_of_int (int (length doc) - startPos ?st0) / real_of_int (opt_chunkSize opts)\<rceil> \<le> fuel"
      using fuel by simp
    from chunk_loop_partition[OF ws seps C i0 f0] obtain st' where
      "chunk_loop fuel opts doc ?st0 = Some st'"
      "concat (map chunk_text (chunks st')) = doc"
      "length (chunks st') = nat \<lceil>real (length doc) / real_of_int (opt_chunkSize opts)\<rceil>"
      "\<forall>c \<in> set (chunks st'). int (length (chunk_text c)) \<le> opt_chunkSize opts"
      by auto
    then show ?thesis unfolding unf using False by simp
  qed
qed

theorem chunkText_overlap_ge_size_chunks_witness:
  "list_all (\<lambda>c. \<not> is_js_whitespace c) ''abcde''
   \<and> (\<exists>cs. chunkText 3 ''abcde'' (size_overlap 2 5) = Some cs
           \<and> concat (map chunk_text cs) = ''abcde''
           \<and> length cs = 3
           \<and> list_all (\<lambda>c. int (length (chunk_text c)) \<le> 2) cs)"
proof -
  let ?o = "merge_chunk_options (size_overlap 2 5)"
  have ws: "\<forall>c \<in> set ''abcde''. \<not> is_js_whitespace c"
    by (simp add: is_js_whitespace_def)
  have o: "opt_chunkSize ?o = 2" "opt_chunkOverlap ?o = 5" "opt_separators ?o = DEFAULT_SEPARATORS"
    by (simp_all add: merge_chunk_options_def size_overlap_def)
  have seps: "\<forall>sep \<in> set DEFAULT_SEPARATORS. \<exists>c \<in> set sep. is_js_whitespace c"
    by (simp add: DEFAULT_SEPARATORS_def is_js_whitespace_def)
  have "nat \<lceil>real (length ''abcde'') / real_of_int 2\<rceil> = 3" by simp
  then show ?thesis
    using chunkText_overlap_ge_size_chunks
      [where opts = "?o" and options = "size_overlap 2 5" and doc = "''abcde''" and fuel = 3]
      ws seps
    by (simp add: o list_all_iff)
qed

text \<open>
  C3, as stated, fails: with size 1 and overlap 1 the text \<open>ab\<close> is chunked, not rejected.
\<close>

theorem chunkText_overlap_ge_size_accepted:
  "(1::int) \<ge> 1
   \<and> chunkText 2 ''ab'' (size_overlap 1 1) =
      Some [\<lparr>chunk_text = ''a'', chunk_index = 0, startPosition = 0, endPosition = 1, chunk_metadata = None\<rparr>,
            \<lparr>chunk_text = ''b'', chunk_index = 1, startPosition = 1, endPosition = 2, chunk_metadata = None\<rparr>]"
  by code_simp

section \<open>Ingestion: the result of one document\<close>

lemma act_bind_Some_Inr:
  "act_bind m f w = Some (Inr y, w') \<Longrightarrow> \<exists>x w1. m w = Some (Inr x, w1) \<and> f x w1 = Some (Inr y, w')"
  by (auto simp: act_bind_def split: option.splits sum.splits prod.splits)

lemma ingest_try_success:
  assumes "ingest_try fuel env filePath name options w = Some (Inr res, w')"
  shows "success res \<and> fileName res = name \<and> res_source res = io_source options \<and> errors res = []"
  using assms unfolding ingest_try_def
  by (auto dest!: act_bind_Some_Inr simp: act_return_def act_throw_def split: if_splits sum.splits)

lemma ingestDocument_shape:
  assumes "ingestDocument fuel env filePath options w = Some (res, w')"
  shows "fileName res = path_basename env filePath \<and> res_source res = io_source options
         \<and> isolated res"
proof (cases "ingest_try fuel env filePath (path_basename env filePath) options w")
  case None
  with assms show ?thesis by (simp add: ingestDocument_def)
next
  case (Some a)
  obtain r w1 where a: "a = (r, w1)" by (cases a)
  show ?thesis
  proof (cases r)
    case (Inl e)
    with assms Some a show ?thesis by (auto simp add: ingestDocument_def zero_stats_def isolated_def)
  next
    case (Inr x)
    with Some a have "ingest_try fuel env filePath (path_basename env filePath) options w = Some (Inr x, w1)"
      by simp
    from ingest_try_success[OF this] assms Some a Inr show ?thesis
      by (auto simp add: ingestDocument_def isolated_def)
  qed
qed

section \<open>Ingestion: every loop returns\<close>



















section \<open>Ingestion: a directory\<close>



lemma ingest_each_shape:
  "ingest_each fuel env dir options pdfs w = Some (rs, w') \<Longrightarrow>
     map fileName rs = map (\<lambda>(name, content). path_basename env (path_join env dir name)) pdfs
     \<and> map res_source rs = map (\<lambda>(name, content). source_from_name name) pdfs
     \<and> list_all isolated rs"
proof (induction pdfs arbitrary: w rs)
  case Nil
  then show ?case by simp
next
  case (Cons p pdfs)
  obtain name content where p: "p = (name, content)" by (cases p)
  let ?o = "\<lparr>io_chunkSize = po_chunkSize options, io_chunkOverlap = po_chunkOverlap options,
             io_source = source_from_name name, io_reIngest = po_reIngest options\<rparr>"
  from Cons.prems obtain res w1 where
    d: "ingestDocument fuel env (path_join env dir name) ?o w = Some (res, w1)"
    by (auto simp add: p Let_def split: option.splits)
  with Cons.prems obtain others where
    e: "ingest_each fuel env dir options pdfs w1 = Some (others, w')" and rs: "rs = res # others"
    by (auto simp add: p Let_def split: option.splits)
  from ingestDocument_shape[OF d] Cons.IH[OF e] show ?case
    by (simp add: rs p)
qed



lemma demo_run:
  "ingestAllDocuments 2 demo_env ''docs'' example_options 0 =
   Some (Inr \<lparr>all_success = False,
          results =
            [\<lparr>success = True, fileName = ''style.pdf'', res_source = style_guide,
                stats = \<lparr>st_pages = 1, st_characters = 8, st_chunks = 1, st_embeddings = 1, st_tokens = 1\<rparr>,
                errors = []\<rparr>,
             \<lparr>success = False, fileName = ''broken.pdf'', res_source = other,
                stats = \<lparr>st_pages = 0, st_characters = 0, st_chunks = 0, st_embeddings = 0, st_tokens = 0\<rparr>,
                errors = [''rate limit'']\<rparr>,
             \<lparr>success = True, fileName = ''notes.pdf'', res_source = other,
                stats = \<lparr>st_pages = 1, st_characters = 8, st_chunks = 1, st_embeddings = 1, st_tokens = 1\<rparr>,
                errors = []\<rparr>],
          totalStats = \<lparr>st_pages = 2, st_characters = 16, st_chunks = 2, st_embeddings = 2, st_tokens = 2\<rparr>\<rparr>,
         2)"
  by code_simp

lemma demo_scan:
  "readPDFsFromDirectory demo_env ''docs'' 0 =
     (Inr [(''style.pdf'', \<lparr>pdf_text = ''Be kind.'', numPages = 1, pdf_title = None\<rparr>),
           (''broken.pdf'', \<lparr>pdf_text = ''boom'', numPages = 1, pdf_title = None\<rparr>),
           (''notes.pdf'', \<lparr>pdf_text = ''Be kind.'', numPages = 1, pdf_title = None\<rparr>)], 0)"
  by code_simp


lemma demo_broken:
  "ingestDocument 2 demo_env ''docs/broken.pdf''
     \<lparr>io_chunkSize = None, io_chunkOverlap = None, io_source = other, io_reIngest = None\<rparr> 0
   = Some (\<lparr>success = False, fileName = ''broken.pdf'', res_source = other,
            stats = \<lparr>st_pages = 0, st_characters = 0, st_chunks = 0, st_embeddings = 0, st_tokens = 0\<rparr>,
            errors = [''rate limit'']\<rparr>, 0)"
  by code_simp















text \<open>
  C9, as stated, fails: the options of each call are \<open>{ ...options, source }\<close>, so the source
  determined from the file name overwrites the one the caller supplied. A caller who
  asks for \<open>example_post\<close> gets \<open>style_guide\<close>, \<open>other\<close> and \<open>other\<close>.
\<close>

theorem ingestAllDocuments_ignores_caller_source:
  "po_source example_options = Some example_post
   \<and> map res_source (case ingestAllDocuments 2 demo_env ''docs'' example_options 0 of
                        Some (Inr out, w') \<Rightarrow> results out | _ \<Rightarrow> [])
       = [style_guide, other, other]"
proof -
  have a: "po_source example_options = Some example_post" by (simp add: example_options_def)
  have b: "map res_source (case ingestAllDocuments 2 demo_env ''docs'' example_options 0 of
                        Some (Inr out, w') \<Rightarrow> results out | _ \<Rightarrow> [])
       = [style_guide, other, other]"
    unfolding demo_run by simp
  from a b show ?thesis by (rule conjI)
qed

text \<open>
  C9 (amended): whenever \<open>ingestAllDocuments\<close> returns a result, the source of the entry
  of each scanned file is determined by the file name alone, whatever the options hold:
  \<open>style_guide\<close> when the lower-cased name contains \<open>style\<close>, otherwise \<open>knowledge_base\<close> when
  it contains \<open>knowledge\<close>, otherwise \<open>other\<close>. A source supplied by the caller is not used.
\<close>

theorem ingestAllDocuments_source_from_name:
  assumes "ingestAllDocuments fuel env dir options w = Some (Inr out, w')"
    and "readPDFsFromDirectory env dir w = (Inr pdfs, w1)"
  shows "map res_source (results out)
         = map (\<lambda>(name, content).
                  if js_includes (js_toLowerCase name) ''style'' then style_guide
                  else if js_includes (js_toLowerCase name) ''knowledge'' then knowledge_base
                  else other) pdfs"
proof (cases "pdfs = []")
  case True
  with assms show ?thesis by (auto simp add: ingestAllDocuments_def)
next
  case False
  with assms obtain rs where "ingest_each fuel env dir options pdfs w1 = Some (rs, w')"
    and "results out = rs"
    by (auto simp add: ingestAllDocuments_def split: option.splits)
  with ingest_each_shape[OF this(1)] show ?thesis
    by (simp add: source_from_name_def)
qed

theorem ingestAllDocuments_source_from_name_witness:
  "map res_source
     [\<lparr>success = True, fileName = ''style.pdf'', res_source = style_guide,
        stats = \<lparr>st_pages = 1, st_characters = 8, st_chunks = 1, st_embeddings = 1, st_tokens = 1\<rparr>,
        errors = []\<rparr>,
      \<lparr>success = False, fileName = ''broken.pdf'', res_source = other,
        stats = \<lparr>st_pages = 0, st_characters = 0, st_chunks = 0, st_embeddings = 0, st_tokens = 0\<rparr>,
        errors = [''rate limit'']\<rparr>,
      \<lparr>success = True, fileName = ''notes.pdf'', res_source = other,
        stats = \<lparr>st_pages = 1, st_characters = 8, st_chunks = 1, st_embeddings = 1, st_tokens = 1\<rparr>,
        errors = []\<rparr>]
   = map (\<lambda>(name, content).
            if js_includes (js_toLowerCase name) ''style'' then style_guide
            else if js_includes (js_toLowerCase name) ''knowledge'' then knowledge_base
            else other)
       [(''style.pdf'', \<lparr>pdf_text = ''Be kind.'', numPages = 1, pdf_title = None\<rparr>),
        (''broken.pdf'', \<lparr>pdf_text = ''boom'', numPages = 1, pdf_title = None\<rparr>),
        (''notes.pdf'', \<lparr>pdf_text = ''Be kind.'', numPages = 1, pdf_title = None\<rparr>)]"
  using ingestAllDocuments_source_from_name[OF demo_run demo_scan]
  unfolding AllDocumentsResult.select_convs .

text \<open>
  C10: whenever \<open>ingestDocument\<close> returns a result whose success flag is false, the five
  statistics of that result are 0 and its list of errors is not empty.
\<close>

theorem ingestDocument_failure_stats:
  assumes "ingestDocument fuel env filePath options w = Some (res, w')" and "\<not> success res"
  shows "st_pages (stats res) = 0 \<and> st_characters (stats res) = 0 \<and> st_chunks (stats res) = 0
         \<and> st_embeddings (stats res) = 0 \<and> st_tokens (stats res) = 0 \<and> errors res \<noteq> []"
  using ingestDocument_shape[OF assms(1)] assms(2) by (auto simp: zero_stats_def isolated_def)

theorem ingestDocument_failure_stats_witness:
  "ingestDocument 2 demo_env ''docs/broken.pdf''
     \<lparr>io_chunkSize = None, io_chunkOverlap = None, io_source = other, io_reIngest = None\<rparr> 0
   = Some (\<lparr>success = False, fileName = ''broken.pdf'', res_source = other,
            stats = \<lparr>st_pages = 0, st_characters = 0, st_chunks = 0, st_embeddings = 0, st_tokens = 0\<rparr>,
            errors = [''rate limit'']\<rparr>, 0)
   \<and> errors \<lparr>success = False, fileName = ''broken.pdf'', res_source = other,
            stats = \<lparr>st_pages = 0, st_characters = 0, st_chunks = 0, st_embeddings = 0, st_tokens = 0\<rparr>,
            errors = [''rate limit'']\<rparr> \<noteq> []"
  using ingestDocument_failure_stats[OF demo_broken] demo_broken by simp

end
